theory Spec2Isabelle
  imports Main
begin

section \<open>Values and standard-library calls of the script\<close>

text \<open>
  The program is \<^verbatim>\<open>backend/generate-jwt.py\<close>: a straight-line script that builds a
  claims dictionary, signs it with \<^verbatim>\<open>jwt.encode\<close> and prints the token with usage
  lines. Its only input is the clock reading \<^verbatim>\<open>datetime.utcnow()\<close>.

  A naive \<^verbatim>\<open>datetime\<close> is a point of the proleptic Gregorian timeline with microsecond
  resolution, between \<^verbatim>\<open>datetime.min\<close> (0001-01-01 00:00:00) and \<^verbatim>\<open>datetime.max\<close>
  (9999-12-31 23:59:59.999999). It is modelled by its distance from \<^verbatim>\<open>datetime.min\<close>
  in microseconds; a \<^verbatim>\<open>timedelta\<close> is a signed number of microseconds.
\<close>

datatype datetime = Datetime (micros: int)

datatype timedelta = Timedelta (delta_micros: int)

text \<open>The exceptions that can end the script: a failed import of the signing library, what
  the standard library raises on the values at hand, whatever the signing library raises,
  and a failed write to standard output.\<close>

datatype exn =
  ModuleNotFoundError | OverflowError | TypeError | NotImplementedError | SigningError | OSError

definition timedelta_hours :: "int \<Rightarrow> timedelta" where
  "timedelta_hours h = Timedelta (h * 3600 * 1000000)"

definition datetime_max_micros :: int where
  "datetime_max_micros = 3652059 * 86400 * 1000000 - 1"

text \<open>\<^verbatim>\<open>datetime + timedelta\<close>: raises OverflowError when the sum leaves the range.\<close>

definition datetime_add :: "datetime \<Rightarrow> timedelta \<Rightarrow> exn + datetime" where
  "datetime_add d t =
     (let s = micros d + delta_micros t
      in if 0 \<le> s \<and> s \<le> datetime_max_micros then Inr (Datetime s) else Inl OverflowError)"

text \<open>The values a claims dictionary of this script holds.\<close>

datatype pyval = PStr string | PInt int | PDatetime datetime

text \<open>A dictionary keeps its keys in insertion order: an association list.\<close>

type_synonym pydict = "(string \<times> pyval) list"

text \<open>\<^verbatim>\<open>str(n)\<close> of an integer, as the f-string applies it: decimal digits, a minus sign
  for a negative number.\<close>

definition digit_char :: "nat \<Rightarrow> char" where
  "digit_char d = ''0123456789'' ! d"

fun nat_digits :: "nat \<Rightarrow> string" where
  "nat_digits n = (if n < 10 then [digit_char n] else nat_digits (n div 10) @ [digit_char (n mod 10)])"

declare nat_digits.simps [simp del]

definition str_int :: "int \<Rightarrow> string" where
  "str_int i = (if i < 0 then CHR ''-'' # nat_digits (nat (- i)) else nat_digits (nat i))"

text \<open>\<^verbatim>\<open>a - b\<close> of two datetimes: the timedelta between them.\<close>

definition datetime_sub :: "datetime \<Rightarrow> datetime \<Rightarrow> timedelta" where
  "datetime_sub a b = Timedelta (micros a - micros b)"

text \<open>
  \<^verbatim>\<open>str(d)\<close> of a datetime is \<^verbatim>\<open>d.isoformat(sep=' ')\<close>: year, month and day, then hour,
  minute and second, each zero-padded, and the six digits of the microsecond when it is
  not zero. The date of a day number is found as the standard library's \<^verbatim>\<open>_ord2ymd\<close>
  finds it, through the cycles of 400, 100, 4 and 1 years; day 1 is 0001-01-01.
\<close>

definition DAYS_IN_MONTH :: "int list" where
  "DAYS_IN_MONTH = [-1, 31, 28, 31, 30, 31, 30, 31, 31, 30, 31, 30, 31]"

definition DAYS_BEFORE_MONTH :: "int list" where
  "DAYS_BEFORE_MONTH = [-1, 0, 31, 59, 90, 120, 151, 181, 212, 243, 273, 304, 334]"

definition ord2ymd :: "int \<Rightarrow> int \<times> int \<times> int" where
  "ord2ymd ordinal =
     (let n = ordinal - 1;
          n400 = n div 146097; r400 = n mod 146097;
          n100 = r400 div 36524; r100 = r400 mod 36524;
          n4 = r100 div 1461; r4 = r100 mod 1461;
          n1 = r4 div 365; r = r4 mod 365;
          year = n400 * 400 + 1 + n100 * 100 + n4 * 4 + n1
      in if n1 = 4 \<or> n100 = 4 then (year - 1, 12, 31)
         else
           (let leapyear = (n1 = 3 \<and> (n4 \<noteq> 24 \<or> n100 = 3));
                month = (r + 50) div 32;
                preceding = DAYS_BEFORE_MONTH ! nat month + (if month > 2 \<and> leapyear then 1 else 0)
            in if preceding > r
               then (let month' = month - 1;
                         preceding' = preceding
                           - (DAYS_IN_MONTH ! nat month' + (if month' = 2 \<and> leapyear then 1 else 0))
                     in (year, month', r - preceding' + 1))
               else (year, month, r - preceding + 1)))"

definition zero_pad :: "nat \<Rightarrow> int \<Rightarrow> string" where
  "zero_pad w i = replicate (w - length (str_int i)) CHR ''0'' @ str_int i"

definition str_datetime :: "datetime \<Rightarrow> string" where
  "str_datetime d =
     (let days = micros d div 86400000000;
          rest = micros d mod 86400000000;
          (year, month, day) = ord2ymd (days + 1);
          seconds = rest div 1000000;
          microsecond = rest mod 1000000
      in zero_pad 4 year @ ''-'' @ zero_pad 2 month @ ''-'' @ zero_pad 2 day @ '' ''
         @ zero_pad 2 (seconds div 3600) @ '':'' @ zero_pad 2 (seconds mod 3600 div 60) @ '':''
         @ zero_pad 2 (seconds mod 60)
         @ (if microsecond \<noteq> 0 then ''.'' @ zero_pad 6 microsecond else []))"

text \<open>\<^verbatim>\<open>sep.join(parts)\<close>.\<close>

fun join :: "string \<Rightarrow> string list \<Rightarrow> string" where
  "join sep [] = []"
| "join sep [x] = x"
| "join sep (x # y # ys) = x @ sep @ join sep (y # ys)"

text \<open>
  \<^verbatim>\<open>json.dumps\<close> writes a string between double quotes and, with the default
  \<^verbatim>\<open>ensure_ascii=True\<close>, escapes the quote, the backslash and every character outside
  the printable ASCII range (space to tilde): the short escapes for backspace, form feed,
  newline, carriage return and tab, and \<^verbatim>\<open>\u00xx\<close> otherwise.
\<close>

definition hex_digit :: "nat \<Rightarrow> char" where
  "hex_digit d = ''0123456789abcdef'' ! d"

definition json_escape_char :: "char \<Rightarrow> string" where
  "json_escape_char c =
     (if c = CHR 0x22 then [CHR 0x5C, CHR 0x22]
      else if c = CHR 0x5C then [CHR 0x5C, CHR 0x5C]
      else if c = CHR 0x08 then [CHR 0x5C, CHR ''b'']
      else if c = CHR 0x0C then [CHR 0x5C, CHR ''f'']
      else if c = CHR 0x0A then [CHR 0x5C, CHR ''n'']
      else if c = CHR 0x0D then [CHR 0x5C, CHR ''r'']
      else if c = CHR 0x09 then [CHR 0x5C, CHR ''t'']
      else if (of_char c :: nat) < 32 \<or> 126 < (of_char c :: nat)
        then [CHR 0x5C, CHR ''u'', CHR ''0'', CHR ''0'',
              hex_digit (of_char c div 16), hex_digit (of_char c mod 16)]
      else [c])"

definition json_string :: "string \<Rightarrow> string" where
  "json_string s = [CHR 0x22] @ concat (map json_escape_char s) @ [CHR 0x22]"

text \<open>
  \<^verbatim>\<open>json.dumps(d, indent=2, default=f)\<close> on a flat dictionary: one member per line,
  indented by two spaces, key and value separated by a colon and a space, members by a
  comma and a newline. A value that is not JSON-serialisable (here: a datetime) is
  replaced by \<open>f\<close> of it, which is then written as a string.
\<close>

fun json_value :: "(datetime \<Rightarrow> string) \<Rightarrow> pyval \<Rightarrow> string" where
  "json_value f (PStr s) = json_string s"
| "json_value f (PInt i) = str_int i"
| "json_value f (PDatetime d) = json_string (f d)"

definition json_dumps_indent2 :: "(datetime \<Rightarrow> string) \<Rightarrow> pydict \<Rightarrow> string" where
  "json_dumps_indent2 f d =
     (if d = [] then ''{}''
      else ''{'' @ [CHR 0x0A]
        @ join ('','' @ [CHR 0x0A]) (map (\<lambda>(k, v). ''  '' @ json_string k @ '': '' @ json_value f v) d)
        @ [CHR 0x0A] @ ''}'')"

text \<open>\<^verbatim>\<open>template.format(arg)\<close> for a template with one replacement field \<^verbatim>\<open>{}\<close> and no
  other brace, as both templates of the script are.\<close>

fun format :: "string \<Rightarrow> string \<Rightarrow> string" where
  "format [] arg = []"
| "format [c] arg = [c]"
| "format (c # d # rest) arg =
     (if c = CHR ''{'' \<and> d = CHR ''}'' then arg @ rest else c # format (d # rest) arg)"



definition print :: "string \<Rightarrow> string \<Rightarrow> string" where
  "print s out = out @ s @ [CHR 0x0A]"

section \<open>The script\<close>

text \<open>Lines 8 to 13: the module-level constants.\<close>

definition JWT_SECRET :: string where
  "JWT_SECRET = ''zkpay-jwt-secret-key-2025''"

definition USER_ADDRESS :: string where
  "USER_ADDRESS = ''0x742d35Cc6634C0532925a3b0F26750C66d78EB66''"

definition CHAIN_ID :: int where
  "CHAIN_ID = 714"

definition UNIVERSAL_ADDRESS :: string where
  "UNIVERSAL_ADDRESS = str_int CHAIN_ID @ '':'' @ USER_ADDRESS"

text \<open>Lines 16 to 26: the claims dictionary, from the clock reading \<open>now\<close>. The sum
  \<^verbatim>\<open>now + timedelta(hours=24)\<close> may raise, and then no dictionary exists.\<close>

definition payload :: "datetime \<Rightarrow> exn + pydict" where
  "payload now =
     (case datetime_add now (timedelta_hours 24) of
        Inl e \<Rightarrow> Inl e
      | Inr later \<Rightarrow> Inr
          [(''user_address'', PStr USER_ADDRESS),
           (''universal_address'', PStr UNIVERSAL_ADDRESS),
           (''chain_id'', PInt CHAIN_ID),
           (''iss'', PStr ''zkpay-backend''),
           (''sub'', PStr USER_ADDRESS),
           (''iat'', PDatetime now),
           (''exp'', PDatetime later),
           (''nbf'', PDatetime now)])"

text \<open>
  What the script takes from outside the repository is the signing call
  \<^verbatim>\<open>jwt.encode(payload, key, algorithm=...)\<close>: it returns the token or raises, and leaves
  the dictionary it is given as it was. The script is modelled for any such function.
\<close>

type_synonym encoder = "pydict \<Rightarrow> string \<Rightarrow> string \<Rightarrow> exn + string"

text \<open>Line 29: the token, when every step before it and the signing call return.\<close>

definition token :: "encoder \<Rightarrow> datetime \<Rightarrow> exn + string" where
  "token jwt_encode now =
     (case payload now of
        Inl e \<Rightarrow> Inl e
      | Inr p \<Rightarrow> jwt_encode p JWT_SECRET ''HS256'')"

text \<open>Lines 31 to 50: the arguments of the twenty \<^verbatim>\<open>print\<close> calls, in program order.\<close>

definition printed :: "pydict \<Rightarrow> string \<Rightarrow> string list" where
  "printed p t =
     [replicate 60 CHR ''='',
      ''JWT Token Generated for Testing'',
      replicate 60 CHR ''='',
      [],
      ''Token:'',
      t,
      [],
      ''Claims:'',
      json_dumps_indent2 str_datetime p,
      [],
      replicate 60 CHR ''='',
      ''Usage:'',
      replicate 60 CHR ''='',
      [],
      format ''export JWT_TOKEN='{}' && bash test-api.sh'' t,
      [],
      ''Or:'',
      [],
      format ''JWT_TOKEN='{}' bash test-api.sh'' t,
      []]"

text \<open>How a run ends: exit code 0, or an uncaught exception.\<close>

datatype exit = Exit0 | Uncaught exn

text \<open>
  Standard output can fail: a \<^verbatim>\<open>print\<close> call raises OSError (a closed pipe, a full disk)
  and the script, which catches nothing, ends there with the earlier lines already
  written. The stream is a parameter of the run: \<open>accepts k\<close> tells whether the print call
  number \<open>k\<close>, counted from 0, succeeds. \<open>prints\<close> runs the calls from number \<open>k\<close> on.
  Each line is written when its call is made, as on a terminal or an unbuffered stream;
  a stream that holds the lines back and writes them when the interpreter exits is not
  modelled.
\<close>

fun prints :: "(nat \<Rightarrow> bool) \<Rightarrow> nat \<Rightarrow> string list \<Rightarrow> string \<Rightarrow> exit \<times> string" where
  "prints accepts k [] out = (Exit0, out)"
| "prints accepts k (s # ss) out =
     (if accepts k then prints accepts (Suc k) ss (print s out) else (Uncaught OSError, out))"

text \<open>
  The whole script: the way it ends and the text on standard output. \<open>jwt\<close> is the signing
  call when \<^verbatim>\<open>import jwt\<close> in line 3 finds the library, and \<open>None\<close> when it does not. An
  exception in line 3, 24 or 29 ends the run before the first \<^verbatim>\<open>print\<close>.
\<close>

definition main :: "(nat \<Rightarrow> bool) \<Rightarrow> encoder option \<Rightarrow> datetime \<Rightarrow> exit \<times> string" where
  "main accepts jwt now =
     (case jwt of
        None \<Rightarrow> (Uncaught ModuleNotFoundError, [])
      | Some jwt_encode \<Rightarrow>
          (case payload now of
             Inl e \<Rightarrow> (Uncaught e, [])
           | Inr p \<Rightarrow>
               (case jwt_encode p JWT_SECRET ''HS256'' of
                  Inl e \<Rightarrow> (Uncaught e, [])
                | Inr t \<Rightarrow> prints accepts 0 (printed p t) [])))"

section \<open>The signing library\<close>

text \<open>
  Modelled from the spec: base64url encoding, used by \<^verbatim>\<open>jwt.encode\<close> of the PyJWT
  library, which is not part of the repository. Three bytes become four characters of the
  URL-safe alphabet; the \<^verbatim>\<open>=\<close> padding of a short last group is removed.
\<close>

definition b64url_alphabet :: string where
  "b64url_alphabet = ''ABCDEFGHIJKLMNOPQRSTUVWXYZabcdefghijklmnopqrstuvwxyz0123456789-_''"

definition b64_char :: "nat \<Rightarrow> char" where
  "b64_char i = b64url_alphabet ! i"

definition b64_sextets :: "nat \<Rightarrow> nat list" where
  "b64_sextets n = [n div 262144, n div 4096 mod 64, n div 64 mod 64, n mod 64]"

fun urlsafe_b64encode :: "string \<Rightarrow> string" where
  "urlsafe_b64encode [] = []"
| "urlsafe_b64encode [a] =
     map b64_char (take 2 (b64_sextets (of_char a * 65536))) @ ''==''"
| "urlsafe_b64encode [a, b] =
     map b64_char (take 3 (b64_sextets (of_char a * 65536 + of_char b * 256))) @ ''=''"
| "urlsafe_b64encode (a # b # c # rest) =
     map b64_char (b64_sextets (of_char a * 65536 + of_char b * 256 + of_char c))
     @ urlsafe_b64encode rest"

definition base64url_encode :: "string \<Rightarrow> string" where
  "base64url_encode bs = filter (\<lambda>c. c \<noteq> CHR ''='') (urlsafe_b64encode bs)"

text \<open>
  Modelled from the spec: the wire form of the three time claims inside \<^verbatim>\<open>jwt.encode\<close>
  (PyJWT, not part of the repository). A datetime under \<^verbatim>\<open>exp\<close>, \<^verbatim>\<open>iat\<close> or \<^verbatim>\<open>nbf\<close>
  becomes the integer number of whole seconds since 1970-01-01 00:00:00 UTC, which lies
  62135596800 seconds after \<^verbatim>\<open>datetime.min\<close>; the microseconds are dropped.
\<close>

definition timegm :: "datetime \<Rightarrow> int" where
  "timegm d = micros d div 1000000 - 62135596800"

fun intdate :: "string \<times> pyval \<Rightarrow> string \<times> pyval" where
  "intdate (k, PDatetime d) =
     (if k \<in> {''exp'', ''iat'', ''nbf''} then (k, PInt (timegm d)) else (k, PDatetime d))"
| "intdate (k, v) = (k, v)"

text \<open>
  Modelled from the spec: the compact JSON text \<^verbatim>\<open>jwt.encode\<close> (PyJWT, not part of the
  repository) serialises the header and the claims to: members separated by a comma, key
  and value by a colon, no white space. A datetime left in the dictionary is not
  serialisable.
\<close>

fun json_compact_value :: "pyval \<Rightarrow> exn + string" where
  "json_compact_value (PStr s) = Inr (json_string s)"
| "json_compact_value (PInt i) = Inr (str_int i)"
| "json_compact_value (PDatetime d) = Inl TypeError"

fun json_compact_members :: "pydict \<Rightarrow> exn + string list" where
  "json_compact_members [] = Inr []"
| "json_compact_members ((k, v) # d) =
     (case json_compact_value v of
        Inl e \<Rightarrow> Inl e
      | Inr x \<Rightarrow>
          (case json_compact_members d of
             Inl e \<Rightarrow> Inl e
           | Inr xs \<Rightarrow> Inr ((json_string k @ '':'' @ x) # xs)))"

definition json_dumps_compact :: "pydict \<Rightarrow> exn + string" where
  "json_dumps_compact d =
     (case json_compact_members d of
        Inl e \<Rightarrow> Inl e
      | Inr xs \<Rightarrow> Inr (''{'' @ join '','' xs @ ''}''))"

text \<open>
  Modelled from the spec: \<^verbatim>\<open>jwt.encode(payload, key, algorithm="HS256")\<close> of the PyJWT
  library, which is not part of the repository, after section 4.1 of the spec: the
  base64url of the header \<^verbatim>\<open>{alg: HS256, typ: JWT}\<close>, a dot, the base64url of the claims;
  HMAC-SHA256 of that text under the secret; a dot and the base64url of the MAC. The
  keyed hash itself is the parameter \<open>hmac\<close> (key, then message); it may raise.
\<close>

definition jose_header :: "string \<Rightarrow> pydict" where
  "jose_header alg = [(''alg'', PStr alg), (''typ'', PStr ''JWT'')]"

definition jws_sign :: "(string \<Rightarrow> string \<Rightarrow> exn + string) \<Rightarrow> string \<Rightarrow> string \<Rightarrow> exn + string" where
  "jws_sign hmac key signing_input =
     (case hmac key signing_input of
        Inl e \<Rightarrow> Inl e
      | Inr mac \<Rightarrow> Inr (base64url_encode mac))"

definition pyjwt_encode ::
  "(string \<Rightarrow> string \<Rightarrow> exn + string) \<Rightarrow> pydict \<Rightarrow> string \<Rightarrow> string \<Rightarrow> exn + string" where
  "pyjwt_encode hmac p key alg =
     (if alg \<noteq> ''HS256'' then Inl NotImplementedError
      else case json_dumps_compact (map intdate p) of
        Inl e \<Rightarrow> Inl e
      | Inr claims \<Rightarrow>
          (case json_dumps_compact (jose_header alg) of
             Inl e \<Rightarrow> Inl e
           | Inr header \<Rightarrow>
               (let signing_input = base64url_encode header @ ''.'' @ base64url_encode claims
                in case jws_sign hmac key signing_input of
                     Inl e \<Rightarrow> Inl e
                   | Inr signature \<Rightarrow> Inr (signing_input @ ''.'' @ signature))))"

section \<open>Reading a token back\<close>

text \<open>
  Modelled from the spec: decoding a token without checking its signature, which section 8
  of the spec uses to state what a token holds; the script itself never decodes. The
  token is split at the dots, the three segments are base64url-decoded, and header and
  claims are read as JSON objects. The reader accepts the compact objects of strings and
  integers that the encoder writes.
\<close>

fun split_on :: "char \<Rightarrow> string \<Rightarrow> string list" where
  "split_on sep [] = [[]]"
| "split_on sep (c # cs) =
     (if c = sep then [] # split_on sep cs
      else (case split_on sep cs of [] \<Rightarrow> [[c]] | x # xs \<Rightarrow> (c # x) # xs))"

fun index_of :: "'a \<Rightarrow> 'a list \<Rightarrow> nat option" where
  "index_of x [] = None"
| "index_of x (y # ys) = (if x = y then Some 0 else map_option Suc (index_of x ys))"

definition b64_index :: "char \<Rightarrow> nat option" where
  "b64_index c = index_of c b64url_alphabet"

definition b64_bytes :: "nat \<Rightarrow> string" where
  "b64_bytes n = [char_of (n div 65536), char_of (n div 256 mod 256), char_of (n mod 256)]"

fun base64url_decode :: "string \<Rightarrow> string option" where
  "base64url_decode [] = Some []"
| "base64url_decode [a] = None"
| "base64url_decode [a, b] =
     (case (b64_index a, b64_index b) of
        (Some x, Some y) \<Rightarrow> Some (take 1 (b64_bytes (x * 262144 + y * 4096)))
      | _ \<Rightarrow> None)"
| "base64url_decode [a, b, c] =
     (case (b64_index a, b64_index b, b64_index c) of
        (Some x, Some y, Some z) \<Rightarrow> Some (take 2 (b64_bytes (x * 262144 + y * 4096 + z * 64)))
      | _ \<Rightarrow> None)"
| "base64url_decode (a # b # c # d # rest) =
     (case (b64_index a, b64_index b, b64_index c, b64_index d, base64url_decode rest) of
        (Some x, Some y, Some z, Some w, Some bs) \<Rightarrow>
          Some (b64_bytes (x * 262144 + y * 4096 + z * 64 + w) @ bs)
      | _ \<Rightarrow> None)"

definition digit_value :: "char \<Rightarrow> nat option" where
  "digit_value c = index_of c ''0123456789''"

text \<open>Where a number ends: at the end of the text or before a character that is no digit.\<close>

definition number_ends :: "string \<Rightarrow> bool" where
  "number_ends rest = (case rest of [] \<Rightarrow> True | c # _ \<Rightarrow> digit_value c = None)"

fun read_digits :: "nat \<Rightarrow> string \<Rightarrow> nat \<times> string" where
  "read_digits acc [] = (acc, [])"
| "read_digits acc (c # cs) =
     (case digit_value c of
        None \<Rightarrow> (acc, c # cs)
      | Some d \<Rightarrow> read_digits (acc * 10 + d) cs)"

definition json_read_int :: "string \<Rightarrow> (int \<times> string) option" where
  "json_read_int s =
     (case s of
        [] \<Rightarrow> None
      | c # cs \<Rightarrow>
          if c = CHR ''-''
          then (case cs of
                  [] \<Rightarrow> None
                | d # _ \<Rightarrow>
                    if digit_value d = None then None
                    else (case read_digits 0 cs of (n, rest) \<Rightarrow> Some (- int n, rest)))
          else if digit_value c = None then None
          else (case read_digits 0 s of (n, rest) \<Rightarrow> Some (int n, rest)))"

definition hex_value :: "char \<Rightarrow> nat option" where
  "hex_value c =
     (case index_of c ''0123456789abcdef'' of
        Some v \<Rightarrow> Some v
      | None \<Rightarrow> index_of c ''0123456789ABCDEF'')"

definition short_escape :: "char \<Rightarrow> char option" where
  "short_escape e =
     (if e = CHR 0x22 then Some (CHR 0x22)
      else if e = CHR 0x5C then Some (CHR 0x5C)
      else if e = CHR ''/'' then Some CHR ''/''
      else if e = CHR ''b'' then Some (CHR 0x08)
      else if e = CHR ''f'' then Some (CHR 0x0C)
      else if e = CHR ''n'' then Some (CHR 0x0A)
      else if e = CHR ''r'' then Some (CHR 0x0D)
      else if e = CHR ''t'' then Some (CHR 0x09)
      else None)"

definition hex4 :: "char \<Rightarrow> char \<Rightarrow> char \<Rightarrow> char \<Rightarrow> char option" where
  "hex4 h1 h2 h3 h4 =
     (case (hex_value h1, hex_value h2, hex_value h3, hex_value h4) of
        (Some a, Some b, Some c, Some d) \<Rightarrow>
          if a = 0 \<and> b = 0 then Some (char_of (c * 16 + d)) else None
      | _ \<Rightarrow> None)"

definition cons_char :: "char \<Rightarrow> (string \<times> string) option \<Rightarrow> (string \<times> string) option" where
  "cons_char c r = (case r of None \<Rightarrow> None | Some (s, rest) \<Rightarrow> Some (c # s, rest))"

fun json_read_chars :: "string \<Rightarrow> (string \<times> string) option" where
  "json_read_chars [] = None"
| "json_read_chars (c # cs) =
     (if c = CHR 0x22 then Some ([], cs)
      else if c = CHR 0x5C then
        (case cs of
           [] \<Rightarrow> None
         | e # r \<Rightarrow>
             if e = CHR ''u'' then
               (case r of
                  h1 # h2 # h3 # h4 # r' \<Rightarrow>
                    (case hex4 h1 h2 h3 h4 of
                       None \<Rightarrow> None
                     | Some ch \<Rightarrow> cons_char ch (json_read_chars r'))
                | _ \<Rightarrow> None)
             else
               (case short_escape e of
                  None \<Rightarrow> None
                | Some ch \<Rightarrow> cons_char ch (json_read_chars r)))
      else if (of_char c :: nat) < 32 then None
      else cons_char c (json_read_chars cs))"

definition json_read_string :: "string \<Rightarrow> (string \<times> string) option" where
  "json_read_string s =
     (case s of [] \<Rightarrow> None | c # cs \<Rightarrow> if c = CHR 0x22 then json_read_chars cs else None)"

definition json_read_value :: "string \<Rightarrow> (pyval \<times> string) option" where
  "json_read_value s =
     (case s of
        [] \<Rightarrow> None
      | c # cs \<Rightarrow>
          if c = CHR 0x22
          then (case json_read_chars cs of None \<Rightarrow> None | Some (x, rest) \<Rightarrow> Some (PStr x, rest))
          else (case json_read_int s of None \<Rightarrow> None | Some (i, rest) \<Rightarrow> Some (PInt i, rest)))"

definition json_read_member :: "string \<Rightarrow> ((string \<times> pyval) \<times> string) option" where
  "json_read_member s =
     (case json_read_string s of
        None \<Rightarrow> None
      | Some (k, r) \<Rightarrow>
          (case r of
             [] \<Rightarrow> None
           | c # r' \<Rightarrow>
               if c = CHR '':''
               then (case json_read_value r' of
                       None \<Rightarrow> None
                     | Some (v, rest) \<Rightarrow> Some ((k, v), rest))
               else None))"

lemma json_read_chars_length:
  "json_read_chars s = Some (x, rest) \<Longrightarrow> length rest < length s"
proof (induction "length s" arbitrary: s x rest rule: less_induct)
  case less
  have IH: "json_read_chars s' = Some (x', r') \<Longrightarrow> length s' < length s
      \<Longrightarrow> length r' < length s'" for s' x' r'
    using less.hyps by blast
  from less.prems show ?case
    by (cases s)
      (auto simp: cons_char_def split: if_splits list.splits option.splits dest: IH)
qed

lemma read_digits_length: "read_digits acc s = (n, rest) \<Longrightarrow> length rest \<le> length s"
  by (induction acc s rule: read_digits.induct) (auto split: option.splits)

lemma json_read_value_length:
  "json_read_value s = Some (v, rest) \<Longrightarrow> length rest \<le> length s"
  by (auto simp: json_read_value_def json_read_int_def
      split: list.splits if_splits option.splits prod.splits
      dest!: json_read_chars_length read_digits_length)

lemma json_read_member_length:
  "json_read_member s = Some (kv, rest) \<Longrightarrow> length rest < length s"
  by (auto simp: json_read_member_def json_read_string_def
      split: list.splits if_splits option.splits prod.splits
      dest!: json_read_chars_length json_read_value_length)

function json_read_members :: "string \<Rightarrow> (pydict \<times> string) option" where
  "json_read_members s =
     (case json_read_member s of
        None \<Rightarrow> None
      | Some (kv, r) \<Rightarrow>
          (case r of
             [] \<Rightarrow> None
           | c # r' \<Rightarrow>
               if c = CHR ''}'' then Some ([kv], r')
               else if c = CHR '','' then
                 (case json_read_members r' of
                    None \<Rightarrow> None
                  | Some (d, rest) \<Rightarrow> Some (kv # d, rest))
               else None))"
  by pat_completeness auto
termination
  by (relation "measure length") (auto dest: json_read_member_length)

definition json_loads :: "string \<Rightarrow> pydict option" where
  "json_loads s =
     (case s of
        [] \<Rightarrow> None
      | c # cs \<Rightarrow>
          if c \<noteq> CHR ''{'' then None
          else if cs = ''}'' then Some []
          else (case json_read_members cs of
                  Some (d, []) \<Rightarrow> Some d
                | _ \<Rightarrow> None))"

declare json_read_members.simps [simp del]

definition jwt_decode_unverified :: "string \<Rightarrow> pydict option" where
  "jwt_decode_unverified t =
     (case split_on CHR ''.'' t of
        [h, p, s] \<Rightarrow>
          (case (Option.bind (base64url_decode h) json_loads, base64url_decode p,
                 base64url_decode s) of
             (Some header, Some claims, Some signature) \<Rightarrow> json_loads claims
           | _ \<Rightarrow> None)
      | _ \<Rightarrow> None)"

section \<open>An example run\<close>

text \<open>
  The clock reads 2025-01-02 00:00:00.000250. \<open>example_claims\<close> is the JSON text of the
  claims, \<open>example_mac\<close> the value of HMAC-SHA256 at the signing input of this run under
  the secret of the script, \<open>example_hmac\<close> a keyed hash that returns it, and
  \<open>example_token\<close> the token.
\<close>

definition example_mac :: string where
  "example_mac =
    [CHR 0x41, CHR 0x4B, CHR 0xB1, CHR 0xB9, CHR 0xE0, CHR 0x28, CHR 0x46, CHR 0xF8, CHR 0x51, CHR 0x9D, CHR 0xB4, CHR 0xB3, CHR 0xD0, CHR 0x6B, CHR 0x50, CHR 0x8E,
     CHR 0x0B, CHR 0x68, CHR 0x47, CHR 0x0C, CHR 0x54, CHR 0x7B, CHR 0x0C, CHR 0x0A, CHR 0x1E, CHR 0x61, CHR 0x0E, CHR 0x35, CHR 0x31, CHR 0xCF, CHR 0x30, CHR 0xD9]"

definition example_hmac :: "string \<Rightarrow> string \<Rightarrow> exn + string" where
  "example_hmac key msg = Inr example_mac"

text \<open>Two signing calls for the examples: one that returns a given token, one that raises
  a given exception.\<close>

definition encoder_returning :: "string \<Rightarrow> encoder" where
  "encoder_returning t p key alg = Inr t"




definition example_claims :: string where
  \<open>example_claims =
     ''{"user_address":"0x742d35Cc6634C0532925a3b0F26750C66d78EB66",'' @
     ''"universal_address":"714:0x742d35Cc6634C0532925a3b0F26750C66d78EB66",'' @
     ''"chain_id":714,"iss":"zkpay-backend",'' @
     ''"sub":"0x742d35Cc6634C0532925a3b0F26750C66d78EB66",'' @
     ''"iat":1735776000,"exp":1735862400,"nbf":1735776000}''\<close>

definition example_token :: string where
  "example_token =
     ''eyJhbGciOiJIUzI1NiIsInR5cCI6IkpXVCJ9'' @ ''.'' @
     ''eyJ1c2VyX2FkZHJlc3MiOiIweDc0MmQzNUNjNjYzNEMwNTMyOTI1YTNiMEYyNjc1MEM2NmQ3OEVCNjYi'' @
     ''LCJ1bml2ZXJzYWxfYWRkcmVzcyI6IjcxNDoweDc0MmQzNUNjNjYzNEMwNTMyOTI1YTNiMEYyNjc1MEM2'' @
     ''NmQ3OEVCNjYiLCJjaGFpbl9pZCI6NzE0LCJpc3MiOiJ6a3BheS1iYWNrZW5kIiwic3ViIjoiMHg3NDJk'' @
     ''MzVDYzY2MzRDMDUzMjkyNWEzYjBGMjY3NTBDNjZkNzhFQjY2IiwiaWF0IjoxNzM1Nzc2MDAwLCJleHAi'' @
     ''OjE3MzU4NjI0MDAsIm5iZiI6MTczNTc3NjAwMH0'' @ ''.'' @
     ''QUuxueAoRvhRnbSz0GtQjgtoRwxUewwKHmEONTHPMNk''"

section \<open>The claims dictionary\<close>

lemma payload_Inr:
  assumes "payload now = Inr p"
  shows "\<exists>later. datetime_add now (timedelta_hours 24) = Inr later \<and>
     p = [(''user_address'', PStr USER_ADDRESS),
          (''universal_address'', PStr UNIVERSAL_ADDRESS),
          (''chain_id'', PInt CHAIN_ID),
          (''iss'', PStr ''zkpay-backend''),
          (''sub'', PStr USER_ADDRESS),
          (''iat'', PDatetime now),
          (''exp'', PDatetime later),
          (''nbf'', PDatetime now)]"
  using assms by (auto simp: payload_def split: sum.splits)

lemma datetime_add_Inr:
  "datetime_add d t = Inr d' \<Longrightarrow> micros d' = micros d + delta_micros t"
  by (auto simp: datetime_add_def Let_def split: if_splits)

text \<open>The dictionary exists for every clock reading up to 24 hours before
  \<^verbatim>\<open>datetime.max\<close>.\<close>

lemma payload_defined:
  assumes "0 \<le> micros now" and "micros now + 86400000000 \<le> datetime_max_micros"
  shows "\<exists>p. payload now = Inr p"
  using assms by (simp add: payload_def datetime_add_def timedelta_hours_def Let_def)

lemma payload_example:
  "payload (Datetime 63871372800000250) = Inr
     [(''user_address'', PStr USER_ADDRESS),
      (''universal_address'', PStr UNIVERSAL_ADDRESS),
      (''chain_id'', PInt CHAIN_ID),
      (''iss'', PStr ''zkpay-backend''),
      (''sub'', PStr USER_ADDRESS),
      (''iat'', PDatetime (Datetime 63871372800000250)),
      (''exp'', PDatetime (Datetime 63871459200000250)),
      (''nbf'', PDatetime (Datetime 63871372800000250))]"
  by (simp add: payload_def datetime_add_def timedelta_hours_def datetime_max_micros_def)

lemma str_int_CHAIN_ID: "str_int CHAIN_ID = ''714''"
  by (simp add: CHAIN_ID_def str_int_def nat_digits.simps digit_char_def)

lemma UNIVERSAL_ADDRESS_literal:
  "UNIVERSAL_ADDRESS = ''714:0x742d35Cc6634C0532925a3b0F26750C66d78EB66''"
  by (simp add: UNIVERSAL_ADDRESS_def str_int_CHAIN_ID USER_ADDRESS_def)

text \<open>
  Claim C3: in every run that builds the claims dictionary, \<^verbatim>\<open>exp\<close> is \<^verbatim>\<open>iat\<close> plus 24
  hours, so that \<^verbatim>\<open>exp - iat\<close> is exactly the timedelta of 24 hours, and \<^verbatim>\<open>nbf\<close> equals
  \<^verbatim>\<open>iat\<close>.
\<close>

theorem payload_validity_window:
  assumes "payload now = Inr p"
  shows "\<exists>iat expiry nbf.
     map_of p ''iat'' = Some (PDatetime iat) \<and>
     map_of p ''exp'' = Some (PDatetime expiry) \<and>
     map_of p ''nbf'' = Some (PDatetime nbf) \<and>
     datetime_add iat (timedelta_hours 24) = Inr expiry \<and>
     datetime_sub expiry iat = timedelta_hours 24 \<and>
     nbf = iat"
proof -
  from payload_Inr [OF assms] obtain later where
    l: "datetime_add now (timedelta_hours 24) = Inr later" and
    p: "p = [(''user_address'', PStr USER_ADDRESS),
          (''universal_address'', PStr UNIVERSAL_ADDRESS),
          (''chain_id'', PInt CHAIN_ID),
          (''iss'', PStr ''zkpay-backend''),
          (''sub'', PStr USER_ADDRESS),
          (''iat'', PDatetime now),
          (''exp'', PDatetime later),
          (''nbf'', PDatetime now)]" by blast
  from datetime_add_Inr [OF l] have "datetime_sub later now = timedelta_hours 24"
    by (simp add: datetime_sub_def timedelta_hours_def)
  with l p show ?thesis by simp
qed

theorem payload_validity_window_witness:
  "\<exists>p. payload (Datetime 63871372800000250) = Inr p \<and>
     map_of p ''iat'' = Some (PDatetime (Datetime 63871372800000250)) \<and>
     map_of p ''exp'' = Some (PDatetime (Datetime 63871459200000250)) \<and>
     map_of p ''nbf'' = Some (PDatetime (Datetime 63871372800000250)) \<and>
     datetime_sub (Datetime 63871459200000250) (Datetime 63871372800000250)
       = timedelta_hours 24"
  using payload_validity_window [OF payload_example] payload_example
  by (simp add: datetime_sub_def timedelta_hours_def)

text \<open>
  Claim C4: in every run, the \<^verbatim>\<open>universal_address\<close> claim is the decimal text of the
  \<^verbatim>\<open>chain_id\<close> claim, a colon, and the \<^verbatim>\<open>user_address\<close> claim: the chain id is 714, its
  text is \<^verbatim>\<open>714\<close>, and the composite is \<^verbatim>\<open>714:0x742d35Cc6634C0532925a3b0F26750C66d78EB66\<close>.
\<close>

theorem universal_address_composite:
  assumes "payload now = Inr p"
  shows "\<exists>chain addr.
     map_of p ''chain_id'' = Some (PInt chain) \<and>
     map_of p ''user_address'' = Some (PStr addr) \<and>
     map_of p ''universal_address'' = Some (PStr (str_int chain @ '':'' @ addr)) \<and>
     chain = 714 \<and>
     str_int chain = ''714'' \<and>
     addr = ''0x742d35Cc6634C0532925a3b0F26750C66d78EB66'' \<and>
     map_of p ''universal_address'' =
       Some (PStr ''714:0x742d35Cc6634C0532925a3b0F26750C66d78EB66'')"
proof -
  from payload_Inr [OF assms] have
    "map_of p ''chain_id'' = Some (PInt CHAIN_ID)"
    "map_of p ''user_address'' = Some (PStr USER_ADDRESS)"
    "map_of p ''universal_address'' = Some (PStr (str_int CHAIN_ID @ '':'' @ USER_ADDRESS))"
    by (auto simp: UNIVERSAL_ADDRESS_def)
  moreover have "CHAIN_ID = 714" by (simp add: CHAIN_ID_def)
  moreover have "USER_ADDRESS = ''0x742d35Cc6634C0532925a3b0F26750C66d78EB66''"
    by (simp add: USER_ADDRESS_def)
  moreover have "str_int CHAIN_ID @ '':'' @ USER_ADDRESS
      = ''714:0x742d35Cc6634C0532925a3b0F26750C66d78EB66''"
    using UNIVERSAL_ADDRESS_literal by (simp add: UNIVERSAL_ADDRESS_def)
  ultimately show ?thesis using str_int_CHAIN_ID by auto
qed

theorem universal_address_composite_witness:
  "\<exists>p. payload (Datetime 63871372800000250) = Inr p \<and>
     map_of p ''chain_id'' = Some (PInt 714) \<and>
     map_of p ''user_address'' = Some (PStr ''0x742d35Cc6634C0532925a3b0F26750C66d78EB66'') \<and>
     map_of p ''universal_address'' =
       Some (PStr ''714:0x742d35Cc6634C0532925a3b0F26750C66d78EB66'')"
proof -
  from universal_address_composite [OF payload_example] have
    "map_of
       [(''user_address'', PStr USER_ADDRESS),
        (''universal_address'', PStr UNIVERSAL_ADDRESS),
        (''chain_id'', PInt CHAIN_ID),
        (''iss'', PStr ''zkpay-backend''),
        (''sub'', PStr USER_ADDRESS),
        (''iat'', PDatetime (Datetime 63871372800000250)),
        (''exp'', PDatetime (Datetime 63871459200000250)),
        (''nbf'', PDatetime (Datetime 63871372800000250))] ''universal_address''
      = Some (PStr ''714:0x742d35Cc6634C0532925a3b0F26750C66d78EB66'')"
    by blast
  with payload_example show ?thesis
    by (simp add: CHAIN_ID_def USER_ADDRESS_def)
qed

text \<open>
  Claim C10: whatever the clock reads and whatever the signing call does, a token is the
  signing call's result on the key \<^verbatim>\<open>zkpay-jwt-secret-key-2025\<close> with algorithm HS256
  and on a dictionary with the fixed user address, chain id 714, their composite and the
  issuer \<^verbatim>\<open>zkpay-backend\<close>.
\<close>

theorem minted_constants:
  assumes "token jwt_encode now = Inr t"
  shows "\<exists>p. payload now = Inr p \<and>
     jwt_encode p ''zkpay-jwt-secret-key-2025'' ''HS256'' = Inr t \<and>
     map_of p ''user_address'' = Some (PStr ''0x742d35Cc6634C0532925a3b0F26750C66d78EB66'') \<and>
     map_of p ''chain_id'' = Some (PInt 714) \<and>
     map_of p ''universal_address'' =
       Some (PStr ''714:0x742d35Cc6634C0532925a3b0F26750C66d78EB66'') \<and>
     map_of p ''iss'' = Some (PStr ''zkpay-backend'')"
proof -
  from assms obtain p where p: "payload now = Inr p"
    and t: "jwt_encode p JWT_SECRET ''HS256'' = Inr t"
    by (auto simp: token_def split: sum.splits)
  from payload_Inr [OF p] t p show ?thesis
    by (auto simp: UNIVERSAL_ADDRESS_literal USER_ADDRESS_def CHAIN_ID_def JWT_SECRET_def)
qed

theorem minted_constants_witness:
  "token (encoder_returning example_token) (Datetime 63871372800000250) = Inr example_token \<and>
   (\<exists>p. payload (Datetime 63871372800000250) = Inr p \<and>
     encoder_returning example_token p ''zkpay-jwt-secret-key-2025'' ''HS256''
       = Inr example_token \<and>
     map_of p ''user_address'' = Some (PStr ''0x742d35Cc6634C0532925a3b0F26750C66d78EB66'') \<and>
     map_of p ''chain_id'' = Some (PInt 714) \<and>
     map_of p ''universal_address'' =
       Some (PStr ''714:0x742d35Cc6634C0532925a3b0F26750C66d78EB66'') \<and>
     map_of p ''iss'' = Some (PStr ''zkpay-backend''))"
proof -
  have h: "token (encoder_returning example_token) (Datetime 63871372800000250)
     = Inr example_token"
    by (simp add: token_def payload_example encoder_returning_def)
  from minted_constants [OF h] h show ?thesis by blast
qed

section \<open>Standard output\<close>

lemma prints_append:
  "prints accepts k ss out = (x, out') \<Longrightarrow> \<exists>more. out' = out @ more"
proof (induction ss arbitrary: k out)
  case Nil
  then show ?case by simp
next
  case (Cons s ss)
  show ?case
  proof (cases "accepts k")
    case True
    with Cons.prems have "prints accepts (Suc k) ss (print s out) = (x, out')" by simp
    from Cons.IH [OF this] show ?thesis by (auto simp: print_def)
  next
    case False
    with Cons.prems show ?thesis by simp
  qed
qed









lemmas zero_pad_eval = zero_pad_def str_int_def nat_digits.simps digit_char_def

lemmas ord2ymd_eval = ord2ymd_def Let_def DAYS_BEFORE_MONTH_def DAYS_IN_MONTH_def





lemma payload_Inl:
  assumes "payload now = Inl e"
  shows "e = OverflowError \<and>
     \<not> (0 \<le> micros now + 86400000000 \<and> micros now + 86400000000 \<le> datetime_max_micros)"
  using assms
  by (auto simp: payload_def datetime_add_def timedelta_hours_def Let_def
      split: sum.splits if_splits)




lemma main_signing_raises:
  "payload now = Inr p \<Longrightarrow> jwt_encode p JWT_SECRET ''HS256'' = Inl e
     \<Longrightarrow> main accepts (Some jwt_encode) now = (Uncaught e, [])"
  by (simp add: main_def)

lemma main_prints:
  "payload now = Inr p \<Longrightarrow> jwt_encode p JWT_SECRET ''HS256'' = Inr t
     \<Longrightarrow> main accepts (Some jwt_encode) now = prints accepts 0 (printed p t) []"
  by (simp add: main_def)






lemma str_datetime_last:
  "str_datetime (Datetime 315537897599999999) = ''9999-12-31 23:59:59.999999''"
proof -
  have d: "ord2ymd 3652059 = (9999, 12, 31)"
    by (simp add: ord2ymd_eval)
  have z: "zero_pad 4 9999 = ''9999''" "zero_pad 2 12 = ''12''" "zero_pad 2 31 = ''31''"
    "zero_pad 2 23 = ''23''" "zero_pad 2 59 = ''59''" "zero_pad 6 999999 = ''999999''"
    by (simp_all add: zero_pad_eval)
  show ?thesis by (simp add: str_datetime_def d z)
qed






section \<open>base64url\<close>

lemma index_of_nth: "distinct xs \<Longrightarrow> i < length xs \<Longrightarrow> index_of (xs ! i) xs = Some i"
proof (induction xs arbitrary: i)
  case Nil
  then show ?case by simp
next
  case (Cons y ys)
  show ?case
  proof (cases i)
    case 0
    then show ?thesis by simp
  next
    case (Suc j)
    with Cons.prems have "ys ! j \<noteq> y" by auto
    with Suc Cons show ?thesis by simp
  qed
qed

lemma distinct_b64url_alphabet: "distinct b64url_alphabet"
  by (simp add: b64url_alphabet_def)

lemma length_b64url_alphabet: "length b64url_alphabet = 64"
  by (simp add: b64url_alphabet_def)

lemma b64_index_char: "i < 64 \<Longrightarrow> b64_index (b64_char i) = Some i"
  by (simp add: b64_index_def b64_char_def index_of_nth distinct_b64url_alphabet
      length_b64url_alphabet)

lemma b64_char_in_alphabet: "i < 64 \<Longrightarrow> b64_char i \<in> set b64url_alphabet"
  by (simp add: b64_char_def length_b64url_alphabet)

lemma b64_char_not_pad: "i < 64 \<Longrightarrow> b64_char i \<noteq> CHR ''=''"
proof -
  have "CHR ''='' \<notin> set b64url_alphabet" by (simp add: b64url_alphabet_def)
  then show "i < 64 \<Longrightarrow> b64_char i \<noteq> CHR ''=''"
    using b64_char_in_alphabet by metis
qed

lemma of_char_less_256: "(of_char c :: nat) < 256"
proof -
  have "(of_char c :: nat) mod 256 < 256" by simp
  then show ?thesis by (simp only: of_char_mod_256)
qed

lemma sextets_sum:
  fixes n :: nat
  shows "n div 262144 * 262144 + n div 4096 mod 64 * 4096 + n div 64 mod 64 * 64 + n mod 64 = n"
proof -
  have a: "n = n div 64 * 64 + n mod 64" by simp
  have b: "n div 64 = n div 4096 * 64 + n div 64 mod 64"
  proof -
    have "n div 4096 = n div 64 div 64" by (simp add: div_mult2_eq [symmetric])
    then show ?thesis by simp
  qed
  have c: "n div 4096 = n div 262144 * 64 + n div 4096 mod 64"
  proof -
    have "n div 262144 = n div 4096 div 64" by (simp add: div_mult2_eq [symmetric])
    then show ?thesis by simp
  qed
  show ?thesis using a b c by linarith
qed

lemma top_sextet: "n < 16777216 \<Longrightarrow> n div 262144 < (64::nat)"
proof -
  assume "n < 16777216"
  then have "n < 64 * 262144" by simp
  then show ?thesis by (rule less_mult_imp_div_less)
qed


lemma decode_group4:
  assumes "n < 16777216"
  shows "base64url_decode (map b64_char (b64_sextets n) @ rest)
     = map_option ((@) (b64_bytes n)) (base64url_decode rest)"
  using top_sextet [OF assms]
  by (simp add: b64_sextets_def b64_index_char sextets_sum split: option.splits)

lemma decode_group3:
  assumes "n < 16777216" and "n mod 64 = 0"
  shows "base64url_decode (map b64_char (take 3 (b64_sextets n))) = Some (take 2 (b64_bytes n))"
proof -
  from sextets_sum [of n] assms(2)
  have "n div 262144 * 262144 + n div 4096 mod 64 * 4096 + n div 64 mod 64 * 64 = n" by simp
  with top_sextet [OF assms(1)] show ?thesis
    by (simp add: b64_sextets_def b64_index_char)
qed

lemma decode_group2:
  assumes "n < 16777216" and "n mod 4096 = 0"
  shows "base64url_decode (map b64_char (take 2 (b64_sextets n))) = Some (take 1 (b64_bytes n))"
proof -
  from assms(2) have "4096 dvd n" by (simp add: dvd_eq_mod_eq_0)
  then obtain k where k: "n = 4096 * k" by (rule dvdE)
  have "n mod 64 = 0" by (simp add: k)
  moreover have "n div 64 mod 64 = 0" by (simp add: k)
  ultimately have "n div 262144 * 262144 + n div 4096 mod 64 * 4096 = n"
    using sextets_sum [of n] by simp
  with top_sextet [OF assms(1)] show ?thesis
    by (simp add: b64_sextets_def b64_index_char)
qed

lemma grp3_bytes:
  fixes a b c :: nat
  assumes "a < 256" "b < 256" "c < 256"
  shows "(a * 65536 + b * 256 + c) div 65536 = a"
    and "(a * 65536 + b * 256 + c) div 256 mod 256 = b"
    and "(a * 65536 + b * 256 + c) mod 256 = c"
proof -
  define m where "m = a * 256 + b"
  have e: "a * 65536 + b * 256 + c = m * 256 + c" by (simp add: m_def)
  have m: "(m * 256 + c) div 256 = m" "(m * 256 + c) mod 256 = c" using assms by simp_all
  have b: "m mod 256 = b" using assms by (simp add: m_def)
  show "(a * 65536 + b * 256 + c) div 65536 = a" using assms by simp
  show "(a * 65536 + b * 256 + c) mod 256 = c" unfolding e by (rule m)
  show "(a * 65536 + b * 256 + c) div 256 mod 256 = b" unfolding e m by (rule b)
qed

lemma b64_bytes_group:
  "b64_bytes (of_char a * 65536 + of_char b * 256 + of_char c) = [a, b, c]"
  unfolding b64_bytes_def
  by (simp only: grp3_bytes [OF of_char_less_256 of_char_less_256 of_char_less_256]
      char_of_char)

lemma group_less:
  "of_char a * 65536 + of_char b * 256 + of_char c < (16777216::nat)"
  using of_char_less_256 [of a] of_char_less_256 [of b] of_char_less_256 [of c] by linarith

lemma filter_pad_sextets:
  assumes "n < 16777216"
  shows "filter (\<lambda>c. c \<noteq> CHR ''='') (map b64_char (take k (b64_sextets n)) @ rest)
     = map b64_char (take k (b64_sextets n)) @ filter (\<lambda>c. c \<noteq> CHR ''='') rest"
proof -
  have "\<forall>s \<in> set (b64_sextets n). s < 64"
    using top_sextet [OF assms] by (simp add: b64_sextets_def)
  then have "\<forall>s \<in> set (take k (b64_sextets n)). s < 64"
    by (meson in_set_takeD)
  then have "filter (\<lambda>c. c \<noteq> CHR ''='') (map b64_char (take k (b64_sextets n)))
     = map b64_char (take k (b64_sextets n))"
    by (simp add: filter_map o_def b64_char_not_pad)
  then show ?thesis by simp
qed

lemma sextets_in_alphabet:
  assumes "n < 16777216"
  shows "set (map b64_char (take k (b64_sextets n))) \<subseteq> set b64url_alphabet"
proof -
  have "\<forall>s \<in> set (b64_sextets n). s < 64"
    using top_sextet [OF assms] by (simp add: b64_sextets_def)
  then have "\<forall>s \<in> set (take k (b64_sextets n)). s < 64"
    by (meson in_set_takeD)
  then show ?thesis by (auto simp: b64_char_in_alphabet)
qed

lemma group_less1: "of_char a * 65536 < (16777216::nat)"
  using of_char_less_256 [of a] by linarith

lemma group_less2: "of_char a * 65536 + of_char b * 256 < (16777216::nat)"
  using of_char_less_256 [of a] of_char_less_256 [of b] by linarith

lemma base64url_encode_simps:
  "base64url_encode [] = []"
  "base64url_encode [a] = map b64_char (take 2 (b64_sextets (of_char a * 65536)))"
  "base64url_encode [a, b] =
     map b64_char (take 3 (b64_sextets (of_char a * 65536 + of_char b * 256)))"
  "base64url_encode (a # b # c # rest) =
     map b64_char (b64_sextets (of_char a * 65536 + of_char b * 256 + of_char c))
     @ base64url_encode rest"
proof -
  show "base64url_encode [] = []" by (simp add: base64url_encode_def)
  show "base64url_encode [a] = map b64_char (take 2 (b64_sextets (of_char a * 65536)))"
    unfolding base64url_encode_def urlsafe_b64encode.simps
    using filter_pad_sextets [OF group_less1, of 2 a "''==''"] by simp
  show "base64url_encode [a, b] =
     map b64_char (take 3 (b64_sextets (of_char a * 65536 + of_char b * 256)))"
    unfolding base64url_encode_def urlsafe_b64encode.simps
    using filter_pad_sextets [OF group_less2, of 3 a b "''=''"] by simp
  have t: "take 4 (b64_sextets n) = b64_sextets n" for n by (simp add: b64_sextets_def)
  show "base64url_encode (a # b # c # rest) =
     map b64_char (b64_sextets (of_char a * 65536 + of_char b * 256 + of_char c))
     @ base64url_encode rest"
    unfolding base64url_encode_def urlsafe_b64encode.simps
    using filter_pad_sextets [OF group_less, of 4 a b c "urlsafe_b64encode rest"]
    unfolding t .
qed

lemma b64_bytes_group2:
  "take 2 (b64_bytes (of_char a * 65536 + of_char b * 256)) = [a, b]"
proof -
  have "of_char a * 65536 + of_char b * 256
      = of_char a * 65536 + of_char b * 256 + (0::nat)" by simp
  moreover have "(0::nat) < 256" by simp
  ultimately show ?thesis
    unfolding b64_bytes_def
    using grp3_bytes [OF of_char_less_256 [of a] of_char_less_256 [of b] \<open>(0::nat) < 256\<close>]
    by (simp only: take_Suc_Cons take_0 numeral_2_eq_2 char_of_char)
qed

lemma b64_bytes_group1: "take 1 (b64_bytes (of_char a * 65536)) = [a]"
proof -
  have "of_char a * 65536 div 65536 = (of_char a :: nat)" by simp
  then show ?thesis unfolding b64_bytes_def by (simp only: take_Suc_Cons take_0 One_nat_def char_of_char)
qed

lemma group2_mod: "(of_char a * 65536 + of_char b * 256) mod 64 = (0::nat)"
proof -
  have "of_char a * 65536 + of_char b * 256 = 64 * (of_char a * 1024 + of_char b * 4 :: nat)"
    by simp
  then show ?thesis by (simp only: mod_mult_self1_is_0)
qed

lemma group1_mod: "of_char a * 65536 mod 4096 = (0::nat)"
proof -
  have "of_char a * 65536 = 4096 * (of_char a * 16 :: nat)" by simp
  then show ?thesis by (simp only: mod_mult_self1_is_0)
qed

lemma base64url_roundtrip: "base64url_decode (base64url_encode bs) = Some bs"
proof (induction bs rule: urlsafe_b64encode.induct)
  case 1
  show ?case by (simp add: base64url_encode_simps)
next
  case (2 a)
  show ?case
    unfolding base64url_encode_simps decode_group2 [OF group_less1 group1_mod] b64_bytes_group1
    by (rule refl)
next
  case (3 a b)
  show ?case
    unfolding base64url_encode_simps decode_group3 [OF group_less2 group2_mod] b64_bytes_group2
    by (rule refl)
next
  case (4 a b c rest)
  show ?case
    unfolding base64url_encode_simps decode_group4 [OF group_less] b64_bytes_group 4
    by simp
qed

lemma base64url_encode_alphabet: "set (base64url_encode bs) \<subseteq> set b64url_alphabet"
proof (induction bs rule: urlsafe_b64encode.induct)
  case 1
  show ?case by (simp add: base64url_encode_simps)
next
  case (2 a)
  show ?case unfolding base64url_encode_simps by (rule sextets_in_alphabet [OF group_less1])
next
  case (3 a b)
  show ?case unfolding base64url_encode_simps by (rule sextets_in_alphabet [OF group_less2])
next
  case (4 a b c rest)
  have "set (map b64_char (take 4 (b64_sextets (of_char a * 65536 + of_char b * 256 + of_char c))))
      \<subseteq> set b64url_alphabet"
    by (rule sextets_in_alphabet [OF group_less])
  moreover have "take 4 (b64_sextets n) = b64_sextets n" for n by (simp add: b64_sextets_def)
  ultimately show ?case using 4 unfolding base64url_encode_simps by simp
qed

lemma base64url_encode_no_dot: "CHR ''.'' \<notin> set (base64url_encode bs)"
proof -
  have "CHR ''.'' \<notin> set b64url_alphabet" by (simp add: b64url_alphabet_def)
  with base64url_encode_alphabet [of bs] show ?thesis by blast
qed

section \<open>Reading JSON\<close>

lemma digit_value_char: "d < 10 \<Longrightarrow> digit_value (digit_char d) = Some d"
  unfolding digit_value_def digit_char_def by (rule index_of_nth) simp_all

lemma hex_value_digit: "d < 16 \<Longrightarrow> hex_value (hex_digit d) = Some d"
proof -
  assume "d < 16"
  then have "index_of (''0123456789abcdef'' ! d) ''0123456789abcdef'' = Some d"
    by (intro index_of_nth) simp_all
  then show ?thesis unfolding hex_value_def hex_digit_def by (simp only: option.case)
qed

lemma digit_char_not_special:
  assumes "d < 10"
  shows "digit_char d \<noteq> CHR ''-''" and "digit_char d \<noteq> CHR 0x22"
proof -
  have "digit_char d \<in> set ''0123456789''"
    using assms by (simp add: digit_char_def del: set_simps)
  then show "digit_char d \<noteq> CHR ''-''" and "digit_char d \<noteq> CHR 0x22" by auto
qed

lemma read_digits_stop: "number_ends rest \<Longrightarrow> read_digits acc rest = (acc, rest)"
  by (cases rest) (simp_all add: number_ends_def)

lemma read_digits_nat_digits:
  "read_digits acc (nat_digits n @ rest)
     = read_digits (acc * 10 ^ length (nat_digits n) + n) rest"
proof (induction n arbitrary: acc rest rule: nat_digits.induct)
  case (1 n)
  show ?case
  proof (cases "n < 10")
    case True
    then show ?thesis
      by (subst (1 2) nat_digits.simps) (simp add: digit_value_char)
  next
    case False
    have d: "n mod 10 < 10" by simp
    have "read_digits acc (nat_digits n @ rest)
        = read_digits acc (nat_digits (n div 10) @ digit_char (n mod 10) # rest)"
      using False by (subst nat_digits.simps) simp
    also have "\<dots> = read_digits (acc * 10 ^ length (nat_digits (n div 10)) + n div 10)
        (digit_char (n mod 10) # rest)"
      using 1 [OF False] by simp
    also have "\<dots> = read_digits
        ((acc * 10 ^ length (nat_digits (n div 10)) + n div 10) * 10 + n mod 10) rest"
      by (simp add: digit_value_char [OF d])
    also have "(acc * 10 ^ length (nat_digits (n div 10)) + n div 10) * 10 + n mod 10
        = acc * 10 ^ length (nat_digits n) + n"
    proof -
      have "length (nat_digits n) = Suc (length (nat_digits (n div 10)))"
        using False by (subst nat_digits.simps) simp
      then show ?thesis by (simp add: algebra_simps)
    qed
    finally show ?thesis .
  qed
qed

lemma nat_digits_hd: "\<exists>d ds. d < 10 \<and> nat_digits n = digit_char d # ds"
proof (induction n rule: nat_digits.induct)
  case (1 n)
  show ?case
  proof (cases "n < 10")
    case True
    then show ?thesis by (subst nat_digits.simps) auto
  next
    case False
    from 1 [OF False] obtain d ds where "d < 10" "nat_digits (n div 10) = digit_char d # ds"
      by blast
    then show ?thesis using False by (subst nat_digits.simps) auto
  qed
qed

lemma json_read_int_str_int:
  assumes "number_ends rest"
  shows "json_read_int (str_int i @ rest) = Some (i, rest)"
proof -
  have r: "read_digits 0 (nat_digits n @ rest) = (n, rest)" for n
    by (simp add: read_digits_nat_digits read_digits_stop [OF assms])
  show ?thesis
  proof (cases "i < 0")
    case True
    obtain d ds where d: "d < 10" "nat_digits (nat (- i)) = digit_char d # ds"
      using nat_digits_hd by blast
    have "read_digits 0 (digit_char d # ds @ rest) = (nat (- i), rest)"
      using r [of "nat (- i)"] d by simp
    with True d show ?thesis
      by (simp add: json_read_int_def str_int_def digit_value_char)
  next
    case False
    obtain d ds where d: "d < 10" "nat_digits (nat i) = digit_char d # ds"
      using nat_digits_hd by blast
    have "read_digits 0 (digit_char d # ds @ rest) = (nat i, rest)"
      using r [of "nat i"] d by simp
    with False d show ?thesis
      by (simp add: json_read_int_def str_int_def digit_value_char digit_char_not_special)
  qed
qed


lemma hex4_escape: "hex4 CHR ''0'' CHR ''0'' (hex_digit (of_char c div 16)) (hex_digit (of_char c mod 16)) = Some c"
proof -
  have "(of_char c :: nat) < 16 * 16" using of_char_less_256 [of c] by simp
  then have a: "(of_char c :: nat) div 16 < 16" by (rule less_mult_imp_div_less)
  have b: "(of_char c :: nat) mod 16 < 16" by simp
  have z: "hex_value CHR ''0'' = Some 0" by (simp add: hex_value_def)
  have "char_of ((of_char c :: nat) div 16 * 16 + of_char c mod 16) = c" by simp
  then show ?thesis
    unfolding hex4_def by (simp only: z hex_value_digit [OF a] hex_value_digit [OF b]) simp
qed

lemma json_read_escape_char:
  "json_read_chars (json_escape_char c @ more) = cons_char c (json_read_chars more)"
proof -
  consider (short) "c \<in> {CHR 0x22, CHR 0x5C, CHR 0x08, CHR 0x0C, CHR 0x0A, CHR 0x0D, CHR 0x09}"
    | (hex) "c \<notin> {CHR 0x22, CHR 0x5C, CHR 0x08, CHR 0x0C, CHR 0x0A, CHR 0x0D, CHR 0x09}"
        "(of_char c :: nat) < 32 \<or> 126 < (of_char c :: nat)"
    | (plain) "c \<notin> {CHR 0x22, CHR 0x5C, CHR 0x08, CHR 0x0C, CHR 0x0A, CHR 0x0D, CHR 0x09}"
        "\<not> ((of_char c :: nat) < 32 \<or> 126 < (of_char c :: nat))"
    by blast
  then show ?thesis
  proof cases
    case short
    then show ?thesis
      by (auto simp: json_escape_char_def short_escape_def)
  next
    case hex
    then have "json_escape_char c = [CHR 0x5C, CHR ''u'', CHR ''0'', CHR ''0'',
              hex_digit (of_char c div 16), hex_digit (of_char c mod 16)]"
      by (simp add: json_escape_char_def)
    then show ?thesis by (simp add: hex4_escape)
  next
    case plain
    then have "json_escape_char c = [c]" by (simp add: json_escape_char_def)
    with plain show ?thesis by simp
  qed
qed

lemma json_read_chars_escaped:
  "json_read_chars (concat (map json_escape_char s) @ CHR 0x22 # rest) = Some (s, rest)"
  by (induction s) (simp_all add: json_read_escape_char cons_char_def)

lemma json_read_string_roundtrip: "json_read_string (json_string s @ rest) = Some (s, rest)"
  by (simp add: json_read_string_def json_string_def json_read_chars_escaped)

lemma str_int_hd: "\<exists>c cs. str_int i = c # cs \<and> c \<noteq> CHR 0x22"
proof -
  obtain d ds where "d < 10" "nat_digits (nat i) = digit_char d # ds"
    using nat_digits_hd by blast
  then show ?thesis by (auto simp: str_int_def digit_char_not_special)
qed

lemma json_read_value_roundtrip:
  assumes "json_compact_value v = Inr x" and "number_ends rest"
  shows "json_read_value (x @ rest) = Some (v, rest)"
proof (cases v)
  case (PStr s)
  with assms show ?thesis
    by (auto simp: json_read_value_def json_string_def json_read_chars_escaped)
next
  case (PInt i)
  obtain c cs where c: "str_int i = c # cs" "c \<noteq> CHR 0x22" using str_int_hd by blast
  from json_read_int_str_int [OF assms(2), of i] c
  have "json_read_int (c # cs @ rest) = Some (i, rest)" by simp
  with PInt assms c show ?thesis by (auto simp: json_read_value_def)
next
  case (PDatetime d)
  with assms show ?thesis by simp
qed

lemma json_read_member_roundtrip:
  assumes "json_compact_value v = Inr x" and "number_ends rest"
  shows "json_read_member (json_string k @ '':'' @ x @ rest) = Some ((k, v), rest)"
  using json_read_string_roundtrip [of k "'':'' @ x @ rest"]
    json_read_value_roundtrip [OF assms]
  by (simp add: json_read_member_def)

lemma number_ends_simps: "number_ends (CHR '','' # r)" "number_ends (CHR ''}'' # r)"
  by (simp_all add: number_ends_def digit_value_def)

lemma json_read_members_roundtrip:
  assumes "json_compact_members d = Inr xs" and "d \<noteq> []"
  shows "json_read_members (join '','' xs @ ''}'' @ rest) = Some (d, rest)"
  using assms
proof (induction d arbitrary: xs)
  case Nil
  then show ?case by simp
next
  case (Cons kv d)
  obtain k v where kv: "kv = (k, v)" by (cases kv)
  from Cons.prems(1) kv obtain x ys where
    x: "json_compact_value v = Inr x" and ys: "json_compact_members d = Inr ys"
    and xs: "xs = (json_string k @ '':'' @ x) # ys"
    by (auto split: sum.splits)
  show ?case
  proof (cases d)
    case Nil
    with ys have "ys = []" by simp
    with xs Nil kv show ?thesis
      using json_read_member_roundtrip [OF x number_ends_simps(2), of k rest]
      by (subst json_read_members.simps) simp
  next
    case (Cons kv' d')
    with ys obtain y ys' where y: "ys = y # ys'" by (cases kv') (auto split: sum.splits)
    from Cons.IH [OF ys] Cons
    have IH: "json_read_members (join '','' ys @ ''}'' @ rest) = Some (d, rest)" by simp
    have "join '','' xs @ ''}'' @ rest
        = json_string k @ '':'' @ x @ CHR '','' # (join '','' ys @ ''}'' @ rest)"
      using xs y by simp
    then show ?thesis
      using json_read_member_roundtrip [OF x number_ends_simps(1),
          of k "join '','' ys @ ''}'' @ rest"] IH kv
      by (subst json_read_members.simps) simp
  qed
qed

lemma join_not_brace:
  assumes "json_compact_members d = Inr xs" and "d \<noteq> []"
  shows "join '','' xs @ ''}'' \<noteq> ''}''"
proof -
  from assms obtain k v d' where d: "d = (k, v) # d'" by (cases d) auto
  with assms(1) obtain x ys where "xs = (json_string k @ '':'' @ x) # ys"
    by (auto split: sum.splits)
  then have "\<exists>r. join '','' xs = CHR 0x22 # r"
    by (cases ys) (simp_all add: json_string_def)
  then show ?thesis by auto
qed

lemma json_loads_dumps:
  assumes "json_dumps_compact d = Inr s"
  shows "json_loads s = Some d"
proof -
  from assms obtain xs where xs: "json_compact_members d = Inr xs"
    and s: "s = ''{'' @ join '','' xs @ ''}''"
    by (auto simp: json_dumps_compact_def split: sum.splits)
  show ?thesis
  proof (cases "d = []")
    case True
    with xs s show ?thesis by (simp add: json_loads_def)
  next
    case False
    from json_read_members_roundtrip [OF xs False, of "[]"] join_not_brace [OF xs False] s
    show ?thesis by (simp add: json_loads_def)
  qed
qed

section \<open>Tokens\<close>

lemma split_on_no_sep: "sep \<notin> set a \<Longrightarrow> split_on sep a = [a]"
  by (induction a) auto

lemma split_on_append:
  "sep \<notin> set a \<Longrightarrow> split_on sep (a @ sep # rest) = a # split_on sep rest"
  by (induction a) auto

lemma split_on_three:
  assumes "sep \<notin> set a" and "sep \<notin> set b" and "sep \<notin> set c"
  shows "split_on sep (a @ [sep] @ b @ [sep] @ c) = [a, b, c]"
  using assms by (simp add: split_on_append split_on_no_sep)

lemma header_json:
  \<open>json_dumps_compact (jose_header ''HS256'') = Inr ''{"alg":"HS256","typ":"JWT"}''\<close>
  by (simp add: json_dumps_compact_def jose_header_def json_string_def json_escape_char_def)

lemma pyjwt_encode_Inr:
  assumes "pyjwt_encode hmac p key ''HS256'' = Inr t"
  shows \<open>\<exists>claims mac.
     json_dumps_compact (map intdate p) = Inr claims \<and>
     hmac key (base64url_encode ''{"alg":"HS256","typ":"JWT"}'' @ ''.'' @ base64url_encode claims)
       = Inr mac \<and>
     t = base64url_encode ''{"alg":"HS256","typ":"JWT"}'' @ ''.'' @ base64url_encode claims
           @ ''.'' @ base64url_encode mac\<close>
  using assms
  by (auto simp: pyjwt_encode_def header_json jws_sign_def Let_def split: sum.splits)

lemma intdate_payload:
  "map intdate
     [(''user_address'', PStr USER_ADDRESS),
      (''universal_address'', PStr UNIVERSAL_ADDRESS),
      (''chain_id'', PInt CHAIN_ID),
      (''iss'', PStr ''zkpay-backend''),
      (''sub'', PStr USER_ADDRESS),
      (''iat'', PDatetime now),
      (''exp'', PDatetime later),
      (''nbf'', PDatetime now)] =
     [(''user_address'', PStr USER_ADDRESS),
      (''universal_address'', PStr UNIVERSAL_ADDRESS),
      (''chain_id'', PInt CHAIN_ID),
      (''iss'', PStr ''zkpay-backend''),
      (''sub'', PStr USER_ADDRESS),
      (''iat'', PInt (timegm now)),
      (''exp'', PInt (timegm later)),
      (''nbf'', PInt (timegm now))]"
  by simp

text \<open>What a token of the script is, when the signing library is the one of the spec.\<close>

lemma token_pyjwt:
  assumes "token (pyjwt_encode hmac) now = Inr t"
  shows \<open>\<exists>later claims mac.
     datetime_add now (timedelta_hours 24) = Inr later \<and>
     json_dumps_compact
       [(''user_address'', PStr USER_ADDRESS),
        (''universal_address'', PStr UNIVERSAL_ADDRESS),
        (''chain_id'', PInt CHAIN_ID),
        (''iss'', PStr ''zkpay-backend''),
        (''sub'', PStr USER_ADDRESS),
        (''iat'', PInt (timegm now)),
        (''exp'', PInt (timegm later)),
        (''nbf'', PInt (timegm now))] = Inr claims \<and>
     hmac JWT_SECRET
       (base64url_encode ''{"alg":"HS256","typ":"JWT"}'' @ ''.'' @ base64url_encode claims)
       = Inr mac \<and>
     t = base64url_encode ''{"alg":"HS256","typ":"JWT"}'' @ ''.'' @ base64url_encode claims
           @ ''.'' @ base64url_encode mac\<close>
proof -
  from assms obtain p where p: "payload now = Inr p"
    and t: "pyjwt_encode hmac p JWT_SECRET ''HS256'' = Inr t"
    by (auto simp: token_def split: sum.splits)
  from payload_Inr [OF p] obtain later where
    l: "datetime_add now (timedelta_hours 24) = Inr later" and
    pe: "p = [(''user_address'', PStr USER_ADDRESS),
          (''universal_address'', PStr UNIVERSAL_ADDRESS),
          (''chain_id'', PInt CHAIN_ID),
          (''iss'', PStr ''zkpay-backend''),
          (''sub'', PStr USER_ADDRESS),
          (''iat'', PDatetime now),
          (''exp'', PDatetime later),
          (''nbf'', PDatetime now)]" by blast
  from pyjwt_encode_Inr [OF t] l show ?thesis
    unfolding pe intdate_payload by blast
qed

lemma jwt_decode_compact:
  assumes "json_dumps_compact hdr = Inr header" and "json_dumps_compact d = Inr claims"
  shows "jwt_decode_unverified
     (base64url_encode header @ ''.'' @ base64url_encode claims @ ''.'' @ base64url_encode mac)
     = Some d"
proof -
  have "split_on CHR ''.''
      (base64url_encode header @ ''.'' @ base64url_encode claims @ ''.'' @ base64url_encode mac)
     = [base64url_encode header, base64url_encode claims, base64url_encode mac]"
    using split_on_three [OF base64url_encode_no_dot base64url_encode_no_dot
        base64url_encode_no_dot] by simp
  then show ?thesis
    by (simp add: jwt_decode_unverified_def base64url_roundtrip
        json_loads_dumps [OF assms(1)] json_loads_dumps [OF assms(2)])
qed

text \<open>
  Claim C1: the token of any run decodes, without a check of the signature, into the
  claims dictionary of the script with its three timestamps as integers: exactly the eight
  fields \<^verbatim>\<open>user_address\<close>, \<^verbatim>\<open>universal_address\<close>, \<^verbatim>\<open>chain_id\<close>, \<^verbatim>\<open>iss\<close>, \<^verbatim>\<open>sub\<close>,
  \<^verbatim>\<open>iat\<close>, \<^verbatim>\<open>exp\<close>, \<^verbatim>\<open>nbf\<close>, with \<^verbatim>\<open>sub\<close> the user address, \<^verbatim>\<open>iss\<close> the fixed
  issuer and \<^verbatim>\<open>iat\<close> the clock reading taken at the start.
\<close>

theorem token_decodes_to_claims:
  assumes "token (pyjwt_encode hmac) now = Inr t"
  shows "\<exists>p later.
     payload now = Inr p \<and>
     datetime_add now (timedelta_hours 24) = Inr later \<and>
     jwt_decode_unverified t = Some (map intdate p) \<and>
     map intdate p =
       [(''user_address'', PStr USER_ADDRESS),
        (''universal_address'', PStr UNIVERSAL_ADDRESS),
        (''chain_id'', PInt CHAIN_ID),
        (''iss'', PStr ''zkpay-backend''),
        (''sub'', PStr USER_ADDRESS),
        (''iat'', PInt (timegm now)),
        (''exp'', PInt (timegm later)),
        (''nbf'', PInt (timegm now))]"
proof -
  from assms obtain p where p: "payload now = Inr p"
    and t: "pyjwt_encode hmac p JWT_SECRET ''HS256'' = Inr t"
    by (auto simp: token_def split: sum.splits)
  from payload_Inr [OF p] obtain later where
    l: "datetime_add now (timedelta_hours 24) = Inr later" and
    pe: "p = [(''user_address'', PStr USER_ADDRESS),
          (''universal_address'', PStr UNIVERSAL_ADDRESS),
          (''chain_id'', PInt CHAIN_ID),
          (''iss'', PStr ''zkpay-backend''),
          (''sub'', PStr USER_ADDRESS),
          (''iat'', PDatetime now),
          (''exp'', PDatetime later),
          (''nbf'', PDatetime now)]" by blast
  from pyjwt_encode_Inr [OF t] obtain claims mac where
    c: "json_dumps_compact (map intdate p) = Inr claims" and
    te: \<open>t = base64url_encode ''{"alg":"HS256","typ":"JWT"}'' @ ''.'' @ base64url_encode claims
           @ ''.'' @ base64url_encode mac\<close>
    by (elim exE conjE)
  have d: "jwt_decode_unverified t = Some (map intdate p)"
    unfolding te by (rule jwt_decode_compact [OF header_json c])
  have e: "map intdate p =
       [(''user_address'', PStr USER_ADDRESS),
        (''universal_address'', PStr UNIVERSAL_ADDRESS),
        (''chain_id'', PInt CHAIN_ID),
        (''iss'', PStr ''zkpay-backend''),
        (''sub'', PStr USER_ADDRESS),
        (''iat'', PInt (timegm now)),
        (''exp'', PInt (timegm later)),
        (''nbf'', PInt (timegm now))]"
    unfolding pe by (rule intdate_payload)
  show ?thesis
    by (rule exI [of _ p], rule exI [of _ later]) (intro conjI p l d e)
qed

text \<open>
  Claim C2: the token is the base64url of the header \<^verbatim>\<open>{"alg":"HS256","typ":"JWT"}\<close>,
  a dot, the base64url of the claims, a dot, and the base64url of the HMAC-SHA256 of the
  text before the second dot under the secret of the script. Split at the dots it has
  exactly three segments, and each is valid base64url: it decodes, to the header, the
  claims and the MAC.
\<close>

theorem token_is_compact_jws:
  assumes "token (pyjwt_encode hmac) now = Inr t"
  shows \<open>\<exists>p claims mac.
     payload now = Inr p \<and>
     json_dumps_compact (map intdate p) = Inr claims \<and>
     hmac JWT_SECRET
       (base64url_encode ''{"alg":"HS256","typ":"JWT"}'' @ ''.'' @ base64url_encode claims)
       = Inr mac \<and>
     t = base64url_encode ''{"alg":"HS256","typ":"JWT"}'' @ ''.'' @ base64url_encode claims
           @ ''.'' @ base64url_encode mac \<and>
     split_on CHR ''.'' t =
       [base64url_encode ''{"alg":"HS256","typ":"JWT"}'', base64url_encode claims,
        base64url_encode mac] \<and>
     map base64url_decode (split_on CHR ''.'' t) =
       [Some ''{"alg":"HS256","typ":"JWT"}'', Some claims, Some mac]\<close>
proof -
  from assms obtain p where p: "payload now = Inr p"
    and t: "pyjwt_encode hmac p JWT_SECRET ''HS256'' = Inr t"
    by (auto simp: token_def split: sum.splits)
  from pyjwt_encode_Inr [OF t] obtain claims mac where
    c: "json_dumps_compact (map intdate p) = Inr claims" and
    m: \<open>hmac JWT_SECRET
       (base64url_encode ''{"alg":"HS256","typ":"JWT"}'' @ ''.'' @ base64url_encode claims)
       = Inr mac\<close> and
    te: \<open>t = base64url_encode ''{"alg":"HS256","typ":"JWT"}'' @ ''.'' @ base64url_encode claims
           @ ''.'' @ base64url_encode mac\<close>
    by blast
  have s: \<open>split_on CHR ''.'' t =
       [base64url_encode ''{"alg":"HS256","typ":"JWT"}'', base64url_encode claims,
        base64url_encode mac]\<close>
    unfolding te
    using split_on_three [OF base64url_encode_no_dot base64url_encode_no_dot
        base64url_encode_no_dot] by simp
  have d: \<open>map base64url_decode (split_on CHR ''.'' t) =
       [Some ''{"alg":"HS256","typ":"JWT"}'', Some claims, Some mac]\<close>
    unfolding s by (simp add: base64url_roundtrip)
  show ?thesis
    by (rule exI [of _ p], rule exI [of _ claims], rule exI [of _ mac])
      (intro conjI p c m te s d)
qed

text \<open>
  Claim C9: in the decoded token \<^verbatim>\<open>iat\<close>, \<^verbatim>\<open>exp\<close> and \<^verbatim>\<open>nbf\<close> are integers, the whole
  seconds of the clock reading since 1970-01-01, so that \<^verbatim>\<open>exp - iat\<close> is exactly 86400,
  while the dictionary that is printed still holds the datetimes.
\<close>

theorem token_time_claims_whole_seconds:
  assumes "token (pyjwt_encode hmac) now = Inr t"
  shows "\<exists>p d later iat expiry nbf.
     payload now = Inr p \<and>
     map_of p ''iat'' = Some (PDatetime now) \<and>
     map_of p ''exp'' = Some (PDatetime later) \<and>
     map_of p ''nbf'' = Some (PDatetime now) \<and>
     jwt_decode_unverified t = Some d \<and>
     map_of d ''iat'' = Some (PInt iat) \<and>
     map_of d ''exp'' = Some (PInt expiry) \<and>
     map_of d ''nbf'' = Some (PInt nbf) \<and>
     iat = micros now div 1000000 - 62135596800 \<and>
     expiry - iat = 86400 \<and>
     nbf = iat"
proof -
  from assms obtain p where p: "payload now = Inr p"
    by (auto simp: token_def split: sum.splits)
  from payload_Inr [OF p] obtain later' where
    l': "datetime_add now (timedelta_hours 24) = Inr later'" and
    pe: "p = [(''user_address'', PStr USER_ADDRESS),
          (''universal_address'', PStr UNIVERSAL_ADDRESS),
          (''chain_id'', PInt CHAIN_ID),
          (''iss'', PStr ''zkpay-backend''),
          (''sub'', PStr USER_ADDRESS),
          (''iat'', PDatetime now),
          (''exp'', PDatetime later'),
          (''nbf'', PDatetime now)]" by blast
  from token_pyjwt [OF assms] obtain later claims mac where
    l: "datetime_add now (timedelta_hours 24) = Inr later" and
    c: "json_dumps_compact
       [(''user_address'', PStr USER_ADDRESS),
        (''universal_address'', PStr UNIVERSAL_ADDRESS),
        (''chain_id'', PInt CHAIN_ID),
        (''iss'', PStr ''zkpay-backend''),
        (''sub'', PStr USER_ADDRESS),
        (''iat'', PInt (timegm now)),
        (''exp'', PInt (timegm later)),
        (''nbf'', PInt (timegm now))] = Inr claims" and
    t: \<open>t = base64url_encode ''{"alg":"HS256","typ":"JWT"}'' @ ''.'' @ base64url_encode claims
           @ ''.'' @ base64url_encode mac\<close>
    by blast
  from l l' have [simp]: "later' = later" by simp
  have d: "jwt_decode_unverified t = Some
       [(''user_address'', PStr USER_ADDRESS),
        (''universal_address'', PStr UNIVERSAL_ADDRESS),
        (''chain_id'', PInt CHAIN_ID),
        (''iss'', PStr ''zkpay-backend''),
        (''sub'', PStr USER_ADDRESS),
        (''iat'', PInt (timegm now)),
        (''exp'', PInt (timegm later)),
        (''nbf'', PInt (timegm now))]"
    using jwt_decode_compact [OF header_json c] unfolding t .
  have "micros later = micros now + 86400 * 1000000"
    using datetime_add_Inr [OF l] by (simp add: timedelta_hours_def)
  then have "timegm later - timegm now = 86400" by (simp add: timegm_def)
  with p d show ?thesis by (simp add: pe timegm_def)
qed

section \<open>The example run, evaluated\<close>

lemmas b64_eval = base64url_encode_simps b64_sextets_def b64_char_def b64url_alphabet_def

lemma header_segment_example:
  \<open>base64url_encode ''{"alg":"HS256","typ":"JWT"}'' = ''eyJhbGciOiJIUzI1NiIsInR5cCI6IkpXVCJ9''\<close>
  by (simp add: b64_eval)

lemma signature_segment_example:
  "base64url_encode example_mac = ''QUuxueAoRvhRnbSz0GtQjgtoRwxUewwKHmEONTHPMNk''"
  by (simp add: example_mac_def b64_eval)

lemma claims_segment_example:
  "base64url_encode example_claims =
     ''eyJ1c2VyX2FkZHJlc3MiOiIweDc0MmQzNUNjNjYzNEMwNTMyOTI1YTNiMEYyNjc1MEM2NmQ3OEVCNjYi'' @
     ''LCJ1bml2ZXJzYWxfYWRkcmVzcyI6IjcxNDoweDc0MmQzNUNjNjYzNEMwNTMyOTI1YTNiMEYyNjc1MEM2'' @
     ''NmQ3OEVCNjYiLCJjaGFpbl9pZCI6NzE0LCJpc3MiOiJ6a3BheS1iYWNrZW5kIiwic3ViIjoiMHg3NDJk'' @
     ''MzVDYzY2MzRDMDUzMjkyNWEzYjBGMjY3NTBDNjZkNzhFQjY2IiwiaWF0IjoxNzM1Nzc2MDAwLCJleHAi'' @
     ''OjE3MzU4NjI0MDAsIm5iZiI6MTczNTc3NjAwMH0''"
  by (simp add: example_claims_def b64_eval)

lemma claims_json_example:
  "json_dumps_compact
       [(''user_address'', PStr USER_ADDRESS),
        (''universal_address'', PStr UNIVERSAL_ADDRESS),
        (''chain_id'', PInt CHAIN_ID),
        (''iss'', PStr ''zkpay-backend''),
        (''sub'', PStr USER_ADDRESS),
        (''iat'', PInt 1735776000),
        (''exp'', PInt 1735862400),
        (''nbf'', PInt 1735776000)] = Inr example_claims"
  by (simp add: json_dumps_compact_def json_string_def json_escape_char_def
      UNIVERSAL_ADDRESS_literal USER_ADDRESS_def CHAIN_ID_def
      str_int_def nat_digits.simps digit_char_def example_claims_def)

lemma timegm_example:
  "timegm (Datetime 63871372800000250) = 1735776000"
  "timegm (Datetime 63871459200000250) = 1735862400"
  by (simp_all add: timegm_def)

lemma token_example:
  "token (pyjwt_encode example_hmac) (Datetime 63871372800000250) = Inr example_token"
  unfolding token_def payload_example pyjwt_encode_def
  by (simp add: timegm_example claims_json_example header_json jws_sign_def example_hmac_def
      header_segment_example claims_segment_example signature_segment_example
      example_token_def)

lemma later_example:
  "datetime_add (Datetime 63871372800000250) (timedelta_hours 24) = Inr later
     \<Longrightarrow> later = Datetime 63871459200000250"
  by (simp add: datetime_add_def timedelta_hours_def datetime_max_micros_def)

lemma split_example:
  "split_on CHR ''.'' example_token =
     [''eyJhbGciOiJIUzI1NiIsInR5cCI6IkpXVCJ9'',
      ''eyJ1c2VyX2FkZHJlc3MiOiIweDc0MmQzNUNjNjYzNEMwNTMyOTI1YTNiMEYyNjc1MEM2NmQ3OEVCNjYi'' @
      ''LCJ1bml2ZXJzYWxfYWRkcmVzcyI6IjcxNDoweDc0MmQzNUNjNjYzNEMwNTMyOTI1YTNiMEYyNjc1MEM2'' @
      ''NmQ3OEVCNjYiLCJjaGFpbl9pZCI6NzE0LCJpc3MiOiJ6a3BheS1iYWNrZW5kIiwic3ViIjoiMHg3NDJk'' @
      ''MzVDYzY2MzRDMDUzMjkyNWEzYjBGMjY3NTBDNjZkNzhFQjY2IiwiaWF0IjoxNzM1Nzc2MDAwLCJleHAi'' @
      ''OjE3MzU4NjI0MDAsIm5iZiI6MTczNTc3NjAwMH0'',
      ''QUuxueAoRvhRnbSz0GtQjgtoRwxUewwKHmEONTHPMNk'']"
  by (simp add: example_token_def)

theorem token_decodes_to_claims_witness:
  "token (pyjwt_encode example_hmac) (Datetime 63871372800000250) = Inr example_token \<and>
   jwt_decode_unverified example_token = Some
     [(''user_address'', PStr ''0x742d35Cc6634C0532925a3b0F26750C66d78EB66''),
      (''universal_address'', PStr ''714:0x742d35Cc6634C0532925a3b0F26750C66d78EB66''),
      (''chain_id'', PInt 714),
      (''iss'', PStr ''zkpay-backend''),
      (''sub'', PStr ''0x742d35Cc6634C0532925a3b0F26750C66d78EB66''),
      (''iat'', PInt 1735776000),
      (''exp'', PInt 1735862400),
      (''nbf'', PInt 1735776000)]"
proof -
  from token_decodes_to_claims [OF token_example] obtain p later where
    l: "datetime_add (Datetime 63871372800000250) (timedelta_hours 24) = Inr later" and
    d: "jwt_decode_unverified example_token = Some (map intdate p)" and
    e: "map intdate p =
       [(''user_address'', PStr USER_ADDRESS),
        (''universal_address'', PStr UNIVERSAL_ADDRESS),
        (''chain_id'', PInt CHAIN_ID),
        (''iss'', PStr ''zkpay-backend''),
        (''sub'', PStr USER_ADDRESS),
        (''iat'', PInt (timegm (Datetime 63871372800000250))),
        (''exp'', PInt (timegm later)),
        (''nbf'', PInt (timegm (Datetime 63871372800000250)))]"
    by (elim exE conjE)
  show ?thesis
    using token_example d
    unfolding e later_example [OF l] timegm_example UNIVERSAL_ADDRESS_literal USER_ADDRESS_def
      CHAIN_ID_def
    by simp
qed

theorem token_is_compact_jws_witness:
  \<open>token (pyjwt_encode example_hmac) (Datetime 63871372800000250) = Inr example_token \<and>
   split_on CHR ''.'' example_token =
     [''eyJhbGciOiJIUzI1NiIsInR5cCI6IkpXVCJ9'',
      ''eyJ1c2VyX2FkZHJlc3MiOiIweDc0MmQzNUNjNjYzNEMwNTMyOTI1YTNiMEYyNjc1MEM2NmQ3OEVCNjYi'' @
      ''LCJ1bml2ZXJzYWxfYWRkcmVzcyI6IjcxNDoweDc0MmQzNUNjNjYzNEMwNTMyOTI1YTNiMEYyNjc1MEM2'' @
      ''NmQ3OEVCNjYiLCJjaGFpbl9pZCI6NzE0LCJpc3MiOiJ6a3BheS1iYWNrZW5kIiwic3ViIjoiMHg3NDJk'' @
      ''MzVDYzY2MzRDMDUzMjkyNWEzYjBGMjY3NTBDNjZkNzhFQjY2IiwiaWF0IjoxNzM1Nzc2MDAwLCJleHAi'' @
      ''OjE3MzU4NjI0MDAsIm5iZiI6MTczNTc3NjAwMH0'',
      ''QUuxueAoRvhRnbSz0GtQjgtoRwxUewwKHmEONTHPMNk''] \<and>
   map base64url_decode (split_on CHR ''.'' example_token) =
     [Some ''{"alg":"HS256","typ":"JWT"}'', Some example_claims, Some example_mac]\<close>
proof -
  from token_is_compact_jws [OF token_example] obtain p claims mac where
    p: "payload (Datetime 63871372800000250) = Inr p" and
    c: "json_dumps_compact (map intdate p) = Inr claims" and
    m: \<open>example_hmac JWT_SECRET
       (base64url_encode ''{"alg":"HS256","typ":"JWT"}'' @ ''.'' @ base64url_encode claims)
       = Inr mac\<close> and
    d: \<open>map base64url_decode (split_on CHR ''.'' example_token) =
       [Some ''{"alg":"HS256","typ":"JWT"}'', Some claims, Some mac]\<close>
    by (elim exE conjE)
  from p have pe: "p =
     [(''user_address'', PStr USER_ADDRESS),
      (''universal_address'', PStr UNIVERSAL_ADDRESS),
      (''chain_id'', PInt CHAIN_ID),
      (''iss'', PStr ''zkpay-backend''),
      (''sub'', PStr USER_ADDRESS),
      (''iat'', PDatetime (Datetime 63871372800000250)),
      (''exp'', PDatetime (Datetime 63871459200000250)),
      (''nbf'', PDatetime (Datetime 63871372800000250))]"
    by (simp add: payload_example)
  from c have "claims = example_claims"
    unfolding pe intdate_payload timegm_example claims_json_example by simp
  moreover from m have "mac = example_mac" by (simp add: example_hmac_def)
  ultimately show ?thesis using token_example split_example d by simp
qed

theorem token_time_claims_whole_seconds_witness:
  "token (pyjwt_encode example_hmac) (Datetime 63871372800000250) = Inr example_token \<and>
   (\<exists>p d. payload (Datetime 63871372800000250) = Inr p \<and>
      map_of p ''iat'' = Some (PDatetime (Datetime 63871372800000250)) \<and>
      jwt_decode_unverified example_token = Some d \<and>
      map_of d ''iat'' = Some (PInt 1735776000) \<and>
      map_of d ''exp'' = Some (PInt 1735862400) \<and>
      map_of d ''nbf'' = Some (PInt 1735776000))"
proof -
  from token_time_claims_whole_seconds [OF token_example] obtain p d later iat expiry nbf
    where "payload (Datetime 63871372800000250) = Inr p"
      and "map_of p ''iat'' = Some (PDatetime (Datetime 63871372800000250))"
      and "jwt_decode_unverified example_token = Some d"
      and "map_of d ''iat'' = Some (PInt iat)"
      and "map_of d ''exp'' = Some (PInt expiry)"
      and "map_of d ''nbf'' = Some (PInt nbf)"
      and "iat = micros (Datetime 63871372800000250) div 1000000 - 62135596800"
      and "expiry - iat = 86400"
      and "nbf = iat"
    by blast
  moreover from this have "iat = 1735776000" "expiry = 1735862400" by simp_all
  ultimately show ?thesis using token_example by auto
qed

section \<open>Two runs\<close>

text \<open>
  Two runs of the script differ only in the reading of the clock. Their dictionaries agree
  on \<^verbatim>\<open>user_address\<close>, \<^verbatim>\<open>chain_id\<close>, \<^verbatim>\<open>universal_address\<close>, \<^verbatim>\<open>iss\<close> and \<^verbatim>\<open>sub\<close>; \<^verbatim>\<open>iat\<close>,
  \<^verbatim>\<open>exp\<close> and \<^verbatim>\<open>nbf\<close> differ when the two readings differ, and the dictionaries are equal
  when they do not.
\<close>

lemma two_runs_payloads:
  assumes "payload now1 = Inr p1" and "payload now2 = Inr p2"
  shows "map_of p1 ''user_address'' = map_of p2 ''user_address'' \<and>
     map_of p1 ''chain_id'' = map_of p2 ''chain_id'' \<and>
     map_of p1 ''universal_address'' = map_of p2 ''universal_address'' \<and>
     map_of p1 ''iss'' = map_of p2 ''iss'' \<and>
     map_of p1 ''sub'' = map_of p2 ''sub'' \<and>
     (now1 \<noteq> now2 \<longrightarrow>
        map_of p1 ''iat'' \<noteq> map_of p2 ''iat'' \<and>
        map_of p1 ''exp'' \<noteq> map_of p2 ''exp'' \<and>
        map_of p1 ''nbf'' \<noteq> map_of p2 ''nbf'') \<and>
     (now1 = now2 \<longrightarrow> p1 = p2)"
proof -
  from payload_Inr [OF assms(1)] obtain l1 where
    l1: "datetime_add now1 (timedelta_hours 24) = Inr l1" and
    p1: "p1 = [(''user_address'', PStr USER_ADDRESS),
          (''universal_address'', PStr UNIVERSAL_ADDRESS),
          (''chain_id'', PInt CHAIN_ID),
          (''iss'', PStr ''zkpay-backend''),
          (''sub'', PStr USER_ADDRESS),
          (''iat'', PDatetime now1),
          (''exp'', PDatetime l1),
          (''nbf'', PDatetime now1)]" by blast
  from payload_Inr [OF assms(2)] obtain l2 where
    l2: "datetime_add now2 (timedelta_hours 24) = Inr l2" and
    p2: "p2 = [(''user_address'', PStr USER_ADDRESS),
          (''universal_address'', PStr UNIVERSAL_ADDRESS),
          (''chain_id'', PInt CHAIN_ID),
          (''iss'', PStr ''zkpay-backend''),
          (''sub'', PStr USER_ADDRESS),
          (''iat'', PDatetime now2),
          (''exp'', PDatetime l2),
          (''nbf'', PDatetime now2)]" by blast
  have "micros l1 = micros now1 + delta_micros (timedelta_hours 24)"
    "micros l2 = micros now2 + delta_micros (timedelta_hours 24)"
    using datetime_add_Inr [OF l1] datetime_add_Inr [OF l2] by simp_all
  then have "l1 = l2 \<longleftrightarrow> now1 = now2"
    by (cases l1; cases l2; cases now1; cases now2) auto
  then show ?thesis by (simp add: p1 p2)
qed

lemma two_runs_payloads_example:
  "\<exists>p1 p2. payload (Datetime 63871372800000250) = Inr p1 \<and>
     payload (Datetime 63871372800000251) = Inr p2 \<and>
     map_of p1 ''sub'' = map_of p2 ''sub'' \<and>
     map_of p1 ''iat'' = Some (PDatetime (Datetime 63871372800000250)) \<and>
     map_of p2 ''iat'' = Some (PDatetime (Datetime 63871372800000251)) \<and>
     map_of p1 ''exp'' \<noteq> map_of p2 ''exp''"
proof -
  obtain p1 where p1: "payload (Datetime 63871372800000250) = Inr p1"
    using payload_example by simp
  obtain p2 where p2: "payload (Datetime 63871372800000251) = Inr p2"
    using payload_defined [of "Datetime 63871372800000251"]
    by (auto simp: datetime_max_micros_def)
  have i1: "map_of p1 ''iat'' = Some (PDatetime (Datetime 63871372800000250))"
    using payload_Inr [OF p1] by auto
  have i2: "map_of p2 ''iat'' = Some (PDatetime (Datetime 63871372800000251))"
    using payload_Inr [OF p2] by auto
  have "map_of p1 ''sub'' = map_of p2 ''sub'' \<and> map_of p1 ''exp'' \<noteq> map_of p2 ''exp''"
    using two_runs_payloads [OF p1 p2] by simp
  with p1 p2 i1 i2 show ?thesis by blast
qed

text \<open>
  With the signing library of the spec, the tokens of two runs decode to dictionaries that
  agree on the five fixed fields. When the two clock readings lie in different seconds,
  \<^verbatim>\<open>iat\<close>, \<^verbatim>\<open>exp\<close> and \<^verbatim>\<open>nbf\<close> differ and so do the tokens, already in their claims
  segment; when they lie in the same second, the tokens are equal. Nothing is said about
  the signature segments of two different tokens: that they differ is a property of the
  keyed hash.
\<close>

lemma timegm_later:
  assumes "datetime_add now (timedelta_hours 24) = Inr later"
  shows "timegm later = timegm now + 86400"
proof -
  have "micros later = micros now + 86400 * 1000000"
    using datetime_add_Inr [OF assms] by (simp add: timedelta_hours_def)
  then show ?thesis by (simp add: timegm_def)
qed

lemma two_runs_tokens:
  assumes "token (pyjwt_encode hmac) now1 = Inr t1"
    and "token (pyjwt_encode hmac) now2 = Inr t2"
  shows "\<exists>d1 d2.
     jwt_decode_unverified t1 = Some d1 \<and> jwt_decode_unverified t2 = Some d2 \<and>
     map_of d1 ''user_address'' = map_of d2 ''user_address'' \<and>
     map_of d1 ''chain_id'' = map_of d2 ''chain_id'' \<and>
     map_of d1 ''universal_address'' = map_of d2 ''universal_address'' \<and>
     map_of d1 ''iss'' = map_of d2 ''iss'' \<and>
     map_of d1 ''sub'' = map_of d2 ''sub'' \<and>
     (micros now1 div 1000000 \<noteq> micros now2 div 1000000 \<longrightarrow>
        map_of d1 ''iat'' \<noteq> map_of d2 ''iat'' \<and>
        map_of d1 ''exp'' \<noteq> map_of d2 ''exp'' \<and>
        map_of d1 ''nbf'' \<noteq> map_of d2 ''nbf'' \<and>
        t1 \<noteq> t2) \<and>
     (micros now1 div 1000000 = micros now2 div 1000000 \<longrightarrow> d1 = d2 \<and> t1 = t2)"
proof -
  let ?d = "\<lambda>a b. [(''user_address'', PStr USER_ADDRESS),
        (''universal_address'', PStr UNIVERSAL_ADDRESS),
        (''chain_id'', PInt CHAIN_ID),
        (''iss'', PStr ''zkpay-backend''),
        (''sub'', PStr USER_ADDRESS),
        (''iat'', PInt a),
        (''exp'', PInt b),
        (''nbf'', PInt a)]"
  from token_pyjwt [OF assms(1)] obtain l1 c1 m1 where
    l1: "datetime_add now1 (timedelta_hours 24) = Inr l1" and
    c1: "json_dumps_compact (?d (timegm now1) (timegm l1)) = Inr c1" and
    m1: \<open>hmac JWT_SECRET
       (base64url_encode ''{"alg":"HS256","typ":"JWT"}'' @ ''.'' @ base64url_encode c1)
       = Inr m1\<close> and
    t1: \<open>t1 = base64url_encode ''{"alg":"HS256","typ":"JWT"}'' @ ''.'' @ base64url_encode c1
           @ ''.'' @ base64url_encode m1\<close>
    by (elim exE conjE)
  from token_pyjwt [OF assms(2)] obtain l2 c2 m2 where
    l2: "datetime_add now2 (timedelta_hours 24) = Inr l2" and
    c2: "json_dumps_compact (?d (timegm now2) (timegm l2)) = Inr c2" and
    m2: \<open>hmac JWT_SECRET
       (base64url_encode ''{"alg":"HS256","typ":"JWT"}'' @ ''.'' @ base64url_encode c2)
       = Inr m2\<close> and
    t2: \<open>t2 = base64url_encode ''{"alg":"HS256","typ":"JWT"}'' @ ''.'' @ base64url_encode c2
           @ ''.'' @ base64url_encode m2\<close>
    by (elim exE conjE)
  have d1: "jwt_decode_unverified t1 = Some (?d (timegm now1) (timegm l1))"
    unfolding t1 by (rule jwt_decode_compact [OF header_json c1])
  have d2: "jwt_decode_unverified t2 = Some (?d (timegm now2) (timegm l2))"
    unfolding t2 by (rule jwt_decode_compact [OF header_json c2])
  have e: "timegm l1 = timegm now1 + 86400" "timegm l2 = timegm now2 + 86400"
    using timegm_later [OF l1] timegm_later [OF l2] by simp_all
  have s: "timegm now1 = timegm now2 \<longleftrightarrow> micros now1 div 1000000 = micros now2 div 1000000"
    by (simp add: timegm_def)
  have differ: "t1 \<noteq> t2" if "timegm now1 \<noteq> timegm now2"
  proof
    assume "t1 = t2"
    with d1 d2 have "?d (timegm now1) (timegm l1) = ?d (timegm now2) (timegm l2)" by simp
    with that show False by simp
  qed
  have same: "t1 = t2" if "timegm now1 = timegm now2"
  proof -
    from that e c1 c2 have "c1 = c2" by simp
    with m1 m2 have "m1 = m2" by simp
    with \<open>c1 = c2\<close> show ?thesis by (simp add: t1 t2)
  qed
  show ?thesis
    by (rule exI [of _ "?d (timegm now1) (timegm l1)"],
        rule exI [of _ "?d (timegm now2) (timegm l2)"])
      (use d1 d2 e s differ same in auto)
qed

lemma token_example_hmac_defined:
  assumes "payload now = Inr p"
  shows "\<exists>t. token (pyjwt_encode example_hmac) now = Inr t"
proof -
  from payload_Inr [OF assms] obtain later where
    pe: "p = [(''user_address'', PStr USER_ADDRESS),
          (''universal_address'', PStr UNIVERSAL_ADDRESS),
          (''chain_id'', PInt CHAIN_ID),
          (''iss'', PStr ''zkpay-backend''),
          (''sub'', PStr USER_ADDRESS),
          (''iat'', PDatetime now),
          (''exp'', PDatetime later),
          (''nbf'', PDatetime now)]" by blast
  obtain c where c: "json_dumps_compact (map intdate p) = Inr c"
    unfolding pe intdate_payload by (simp add: json_dumps_compact_def)
  show ?thesis
    unfolding token_def assms pyjwt_encode_def
    by (simp add: c header_json jws_sign_def example_hmac_def)
qed

lemma two_runs_tokens_example:
  "\<exists>t2 d1 d2. token (pyjwt_encode example_hmac) (Datetime 63871372801000250) = Inr t2 \<and>
     t2 \<noteq> example_token \<and>
     jwt_decode_unverified example_token = Some d1 \<and>
     jwt_decode_unverified t2 = Some d2 \<and>
     map_of d1 ''sub'' = map_of d2 ''sub'' \<and>
     map_of d1 ''iat'' \<noteq> map_of d2 ''iat''"
proof -
  obtain p2 where "payload (Datetime 63871372801000250) = Inr p2"
    using payload_defined [of "Datetime 63871372801000250"]
    by (auto simp: datetime_max_micros_def)
  from token_example_hmac_defined [OF this] obtain t2 where
    t2: "token (pyjwt_encode example_hmac) (Datetime 63871372801000250) = Inr t2" ..
  from two_runs_tokens [OF token_example t2] obtain d1 d2 where
    "jwt_decode_unverified example_token = Some d1"
    "jwt_decode_unverified t2 = Some d2"
    "map_of d1 ''sub'' = map_of d2 ''sub''"
    "map_of d1 ''iat'' \<noteq> map_of d2 ''iat''"
    "example_token \<noteq> t2"
    by (elim exE conjE) simp
  with t2 show ?thesis by blast
qed

end
